theory Spec2Isabelle
  imports Complex_Main "HOL-Library.Word"
begin

section \<open>The voice capture component (\<^verbatim>\<open>components/voiceinput.js\<close>)\<close>

text \<open>
  \<^verbatim>\<open>VoiceInput\<close> is a React function component. Each call of the function (a render) binds
  \<^verbatim>\<open>isRecording\<close>, \<^verbatim>\<open>isPaused\<close>, \<^verbatim>\<open>transcript\<close>, ... as constants and creates its handlers
  (\<^verbatim>\<open>startRecording\<close>, \<^verbatim>\<open>stopRecording\<close>, ...) as closures over these constants. A handler
  therefore \<^emph>\<open>reads\<close> the values of the render that created it, and \<^emph>\<open>writes\<close> through the
  setters and the refs, which are shared by all renders. The model keeps the two apart:
  every handler takes the constants of its render as an argument of type \<open>hooks\<close> and
  transforms a \<open>world\<close> that holds the latest state values, the refs and the calls made
  to the platform and to the host.
\<close>

subsection \<open>Strings\<close>

text \<open>
  JavaScript strings are modelled as \<^typ>\<open>string\<close>; a character stands for a code unit below
  256. \<^verbatim>\<open>String.prototype.trim\<close> removes white space and line terminators from both ends;
  below 256 these are TAB, LF, VT, FF, CR, SPACE and NBSP.
\<close>

definition isWhiteSpace :: "char \<Rightarrow> bool" where
  "isWhiteSpace ch = (of_char ch \<in> set [9, 10, 11, 12, 13, 32, 160 :: nat])"

definition trim :: "string \<Rightarrow> string" where
  "trim s = rev (dropWhile isWhiteSpace (rev (dropWhile isWhiteSpace s)))"

subsection \<open>State, refs and observable calls\<close>

text \<open>The six \<^verbatim>\<open>useState\<close> cells (lines 6-11). \<^verbatim>\<open>transcript\<close> is the finalized transcript,
  \<^verbatim>\<open>recordingTime\<close> the elapsed seconds. The level is a JavaScript number; the model computes
  it over the reals, without rounding.\<close>

record hooks =
  isRecording :: bool
  isPaused :: bool
  transcript :: string
  interimTranscript :: string
  audioLevel :: real
  recordingTime :: int

definition initialHooks :: hooks where
  "initialHooks = \<lparr>isRecording = False, isPaused = False, transcript = [],
     interimTranscript = [], audioLevel = 0, recordingTime = 0\<rparr>"

text \<open>The props and the one fact about the browser that the component tests.\<close>

record env =
  onSendGiven :: bool                  \<comment> \<open>\<^verbatim>\<open>if (onSend)\<close>\<close>
  hasWebkitSpeechRecognition :: bool   \<comment> \<open>\<^verbatim>\<open>'webkitSpeechRecognition' in window\<close>\<close>

text \<open>Every call that leaves the component: to the recognition object with the given
  number, to timers, to the microphone tracks and the audio context, to the host's callbacks.\<close>

datatype effect =
    RecognitionStart nat
  | RecognitionStop nat
  | GetUserMedia
  | SetInterval nat
  | ClearInterval nat
  | TrackStop nat
  | AudioContextClose nat
  | RequestAnimationFrame
  | OnTranscript string
  | OnSend string
  | Alert string
  | ConsoleError string

text \<open>
  \<open>st\<close> holds the latest value of each state cell (a setter writes it, a functional
  update reads it); \<open>current\<close> holds the constants of the latest render, which the buttons'
  handlers close over. The five refs follow (lines 13-17); a stream is the list of its
  tracks. \<open>recognitions\<close> lists, for every recognition object created so far, the constants
  its three handlers close over; \<open>acquiring\<close> the same for every \<^verbatim>\<open>startAudioMonitoring\<close>
  call that awaits \<^verbatim>\<open>getUserMedia\<close>, \<open>frames\<close> for every \<^verbatim>\<open>updateLevel\<close> that
  \<^verbatim>\<open>requestAnimationFrame\<close> has scheduled. \<open>fresh\<close> numbers timers and audio contexts.
\<close>

record world =
  st :: hooks
  current :: hooks
  recognitionRef :: "nat option"
  timerRef :: "nat option"
  audioContextRef :: "nat option"
  analyserRef :: "nat option"
  streamRef :: "nat list option"
  recognitions :: "hooks list"
  acquiring :: "hooks list"
  frames :: "hooks list"
  fresh :: nat
  trace :: "effect list"

definition setIsRecording :: "bool \<Rightarrow> world \<Rightarrow> world" where
  "setIsRecording v w = w\<lparr>st := (st w)\<lparr>isRecording := v\<rparr>\<rparr>"

definition setIsPaused :: "bool \<Rightarrow> world \<Rightarrow> world" where
  "setIsPaused v w = w\<lparr>st := (st w)\<lparr>isPaused := v\<rparr>\<rparr>"

definition setTranscript :: "(string \<Rightarrow> string) \<Rightarrow> world \<Rightarrow> world" where
  "setTranscript f w = w\<lparr>st := (st w)\<lparr>transcript := f (transcript (st w))\<rparr>\<rparr>"

definition setInterimTranscript :: "string \<Rightarrow> world \<Rightarrow> world" where
  "setInterimTranscript v w = w\<lparr>st := (st w)\<lparr>interimTranscript := v\<rparr>\<rparr>"

definition setAudioLevel :: "real \<Rightarrow> world \<Rightarrow> world" where
  "setAudioLevel v w = w\<lparr>st := (st w)\<lparr>audioLevel := v\<rparr>\<rparr>"

definition setRecordingTime :: "(int \<Rightarrow> int) \<Rightarrow> world \<Rightarrow> world" where
  "setRecordingTime f w = w\<lparr>st := (st w)\<lparr>recordingTime := f (recordingTime (st w))\<rparr>\<rparr>"

definition emit :: "effect \<Rightarrow> world \<Rightarrow> world" where
  "emit e w = w\<lparr>trace := trace w @ [e]\<rparr>"

text \<open>Statements in sequence: \<open>seq [a, b, c]\<close> runs \<open>a\<close>, then \<open>b\<close>, then \<open>c\<close>.\<close>

definition seq :: "(world \<Rightarrow> world) list \<Rightarrow> world \<Rightarrow> world" where
  "seq fs w = fold (\<lambda>f. f) fs w"

subsection \<open>The recognition handlers (lines 27-61)\<close>

text \<open>A recognition result: \<^verbatim>\<open>results[i].isFinal\<close> and \<^verbatim>\<open>results[i][0].transcript\<close> (a result
  of the Web Speech API has at least one alternative).\<close>

record speechResult =
  isFinal :: bool
  firstTranscript :: string

record speechEvent =
  resultIndex :: nat
  results :: "speechResult list"

text \<open>The \<^verbatim>\<open>for\<close> loop of \<^verbatim>\<open>onresult\<close> (lines 31-38), on the pair \<^verbatim>\<open>(interim, final)\<close>.\<close>

function onresult_loop :: "speechResult list \<Rightarrow> nat \<Rightarrow> string \<times> string \<Rightarrow> string \<times> string" where
  "onresult_loop rs i (interim, final) =
     (if i < length rs then
        (let transcriptPart = firstTranscript (rs ! i) in
         if isFinal (rs ! i)
         then onresult_loop rs (i + 1) (interim, final @ transcriptPart @ '' '')
         else onresult_loop rs (i + 1) (interim @ transcriptPart, final))
      else (interim, final))"
  by pat_completeness auto
termination
  by (relation "measure (\<lambda>(rs, i, acc). length rs - i)") auto

declare onresult_loop.simps [simp del]

definition recognition_onresult :: "speechEvent \<Rightarrow> world \<Rightarrow> world" where
  "recognition_onresult event w =
     (case onresult_loop (results event) (resultIndex event) ([], []) of
        (interim, final) \<Rightarrow>
          if final \<noteq> [] then
            seq [setTranscript (\<lambda>prev. prev @ final), setInterimTranscript []] w
          else
            setInterimTranscript interim w)"

subsection \<open>The controller's operations (lines 108-185)\<close>

text \<open>\<^verbatim>\<open>stopRecording\<close> (lines 146-174). The one value it reads from its render is
  \<^verbatim>\<open>transcript\<close>.\<close>

definition stopRecording :: "env \<Rightarrow> hooks \<Rightarrow> world \<Rightarrow> world" where
  "stopRecording env c =
     seq [
       setIsRecording False,
       setIsPaused False,
       setAudioLevel 0,
       (\<lambda>w. case recognitionRef w of None \<Rightarrow> w | Some r \<Rightarrow> emit (RecognitionStop r) w),
       (\<lambda>w. case timerRef w of None \<Rightarrow> w | Some t \<Rightarrow> emit (ClearInterval t) w),
       (\<lambda>w. case streamRef w of None \<Rightarrow> w
             | Some tracks \<Rightarrow> seq (map (\<lambda>track. emit (TrackStop track)) tracks) w),
       (\<lambda>w. case audioContextRef w of None \<Rightarrow> w | Some a \<Rightarrow> emit (AudioContextClose a) w),
       (\<lambda>w. if trim (transcript c) \<noteq> [] then
               seq [emit (OnTranscript (trim (transcript c))),
                    (\<lambda>w. if onSendGiven env then emit (OnSend (trim (transcript c))) w else w)] w
             else w)]"

text \<open>\<^verbatim>\<open>recognition.onerror\<close> (lines 48-55) calls the \<^verbatim>\<open>stopRecording\<close> of the render whose
  effect created the recognition object.\<close>

definition recognition_onerror :: "env \<Rightarrow> hooks \<Rightarrow> string \<Rightarrow> world \<Rightarrow> world" where
  "recognition_onerror env c error w =
     (let w1 = emit (ConsoleError ''Speech recognition error:'') w in
      if error = ''no-speech'' then w1 else stopRecording env c w1)"

text \<open>\<^verbatim>\<open>recognition.onend\<close> (lines 57-61) of recognition object \<open>r\<close>.\<close>

definition recognition_onend :: "hooks \<Rightarrow> nat \<Rightarrow> world \<Rightarrow> world" where
  "recognition_onend c r w =
     (if isRecording c \<and> \<not> isPaused c then emit (RecognitionStart r) w else w)"

text \<open>\<^verbatim>\<open>updateLevel\<close> (lines 91-99): one tick of the sampling loop. \<open>dataArray\<close> is what
  \<^verbatim>\<open>getByteFrequencyData\<close> writes into the \<^verbatim>\<open>Uint8Array\<close>, whose length is the analyser's
  \<^verbatim>\<open>frequencyBinCount\<close>, half the \<^verbatim>\<open>fftSize\<close>.\<close>

definition fftSize :: nat where
  "fftSize = 256"

definition bufferLength :: nat where
  "bufferLength = fftSize div 2"

definition updateLevel :: "hooks \<Rightarrow> 8 word list \<Rightarrow> world \<Rightarrow> world" where
  "updateLevel c dataArray w =
     (if \<not> isRecording c \<or> isPaused c then w
      else
        (let average = real (sum_list (map unat dataArray)) / real bufferLength in
         seq [setAudioLevel (min 100 ((average / 255) * 150)),
              emit RequestAnimationFrame,
              (\<lambda>w. w\<lparr>frames := frames w @ [c]\<rparr>)] w))"

text \<open>\<^verbatim>\<open>startRecording\<close> (lines 108-130) is asynchronous. Its first part runs up to the
  \<^verbatim>\<open>await\<close> of \<^verbatim>\<open>getUserMedia\<close> inside \<^verbatim>\<open>startAudioMonitoring\<close>.\<close>

definition startRecording :: "hooks \<Rightarrow> world \<Rightarrow> world" where
  "startRecording c w =
     (case recognitionRef w of
        None \<Rightarrow> emit (Alert ''Speech recognition not available'') w
      | Some r \<Rightarrow>
          seq [
            setIsRecording True,
            setIsPaused False,
            setTranscript (\<lambda>prev. []),
            setInterimTranscript [],
            setRecordingTime (\<lambda>prev. 0),
            emit (RecognitionStart r),
            emit GetUserMedia,
            (\<lambda>w. w\<lparr>acquiring := acquiring w @ [c]\<rparr>)] w)"

text \<open>The timer of lines 127-129, started when \<^verbatim>\<open>startAudioMonitoring\<close> has returned.\<close>

definition startTimer :: "world \<Rightarrow> world" where
  "startTimer w = emit (SetInterval (fresh w)) (w\<lparr>timerRef := Some (fresh w), fresh := fresh w + 1\<rparr>)"

definition timer_tick :: "world \<Rightarrow> world" where
  "timer_tick w = setRecordingTime (\<lambda>prev. prev + 1) w"

text \<open>The rest of \<^verbatim>\<open>startAudioMonitoring\<close> when the microphone is granted (lines 80-101),
  with the first call of \<^verbatim>\<open>updateLevel\<close>, and when it is refused (lines 103-104); in both
  cases \<^verbatim>\<open>startRecording\<close> then starts the timer.\<close>

definition startAudioMonitoring_granted :: "hooks \<Rightarrow> nat list \<Rightarrow> 8 word list \<Rightarrow> world \<Rightarrow> world" where
  "startAudioMonitoring_granted c stream dataArray =
     seq [
       (\<lambda>w. w\<lparr>streamRef := Some stream\<rparr>),
       (\<lambda>w. w\<lparr>audioContextRef := Some (fresh w), analyserRef := Some (fresh w), fresh := fresh w + 1\<rparr>),
       updateLevel c dataArray,
       startTimer]"

definition startAudioMonitoring_refused :: "world \<Rightarrow> world" where
  "startAudioMonitoring_refused =
     seq [
       emit (ConsoleError ''Error accessing microphone:''),
       emit (Alert ''Could not access microphone. Please grant permission.''),
       startTimer]"

text \<open>\<^verbatim>\<open>pauseRecording\<close>, \<^verbatim>\<open>resumeRecording\<close> and \<^verbatim>\<open>clearTranscript\<close> (lines 132-144, 182-185).\<close>

definition pauseRecording :: "world \<Rightarrow> world" where
  "pauseRecording =
     seq [
       setIsPaused True,
       (\<lambda>w. case recognitionRef w of None \<Rightarrow> w | Some r \<Rightarrow> emit (RecognitionStop r) w)]"

definition resumeRecording :: "world \<Rightarrow> world" where
  "resumeRecording =
     seq [
       setIsPaused False,
       (\<lambda>w. case recognitionRef w of None \<Rightarrow> w | Some r \<Rightarrow> emit (RecognitionStart r) w)]"

definition clearTranscript :: "world \<Rightarrow> world" where
  "clearTranscript = seq [setTranscript (\<lambda>prev. []), setInterimTranscript []]"

subsection \<open>Renders and the effect (lines 20-74)\<close>

text \<open>
  The effect's dependencies are \<^verbatim>\<open>[isRecording, isPaused]\<close>: React runs it after the first
  render and after every render in which one of the two differs from the render before;
  before it runs again, the cleanup of the previous run is called. The body creates a new
  recognition object whose handlers close over the constants of that render and stores it
  in \<^verbatim>\<open>recognitionRef\<close>; it does not start it. The cleanup calls \<^verbatim>\<open>stop()\<close> on whatever
  \<^verbatim>\<open>recognitionRef\<close> holds.
\<close>

definition useEffect_cleanup :: "world \<Rightarrow> world" where
  "useEffect_cleanup w =
     (case recognitionRef w of None \<Rightarrow> w | Some r \<Rightarrow> emit (RecognitionStop r) w)"

definition useEffect_body :: "env \<Rightarrow> hooks \<Rightarrow> world \<Rightarrow> world" where
  "useEffect_body env c w =
     (if hasWebkitSpeechRecognition env then
        w\<lparr>recognitions := recognitions w @ [c], recognitionRef := Some (length (recognitions w))\<rparr>
      else
        seq [emit (ConsoleError ''Speech recognition not supported''),
             emit (Alert ''Voice input is not supported in your browser. Please use Chrome or Edge.'')] w)"

definition mount :: "env \<Rightarrow> world" where
  "mount env =
     useEffect_body env initialHooks
       \<lparr>st = initialHooks, current = initialHooks, recognitionRef = None, timerRef = None,
        audioContextRef = None, analyserRef = None, streamRef = None, recognitions = [],
        acquiring = [], frames = [], fresh = 1, trace = []\<rparr>"

definition render :: "env \<Rightarrow> world \<Rightarrow> world" where
  "render env w =
     (let c = st w; w1 = w\<lparr>current := c\<rparr> in
      if isRecording c = isRecording (current w) \<and> isPaused c = isPaused (current w) then w1
      else useEffect_body env c (useEffect_cleanup w1))"

subsection \<open>Events\<close>

text \<open>
  What can happen to a mounted component: a click on one of the five buttons, the
  settling of a pending \<^verbatim>\<open>getUserMedia\<close>, an animation frame, a tick of an interval, and
  an event of a recognition object. A button can be clicked only where the render shows it
  (lines 189-265): Start when not recording; Clear and Stop when recording; Pause when
  recording and not paused, Resume when recording and paused. An interval ticks only while
  it is set and not cleared, a recognition object raises events only once it has been
  started. After the handler React renders again. Unmounting the component and exceptions
  thrown by the platform's calls are left out.
\<close>

datatype event =
    ClickStart
  | ClickPause
  | ClickResume
  | ClickClear
  | ClickStop
  | MediaGranted nat "nat list" "8 word list"
  | MediaRefused nat
  | AnimationFrame nat "8 word list"
  | TimerTick nat
  | RecResult nat speechEvent
  | RecError nat string
  | RecEnd nat

definition drop_nth :: "nat \<Rightarrow> 'a list \<Rightarrow> 'a list" where
  "drop_nth k xs = take k xs @ drop (Suc k) xs"

definition started :: "nat \<Rightarrow> world \<Rightarrow> bool" where
  "started r w = (r < length (recognitions w) \<and> RecognitionStart r \<in> set (trace w))"

fun handle :: "env \<Rightarrow> event \<Rightarrow> world \<Rightarrow> world option" where
  "handle env ClickStart w =
     (if \<not> isRecording (current w) then Some (startRecording (current w) w) else None)"
| "handle env ClickPause w =
     (if isRecording (current w) \<and> \<not> isPaused (current w) then Some (pauseRecording w) else None)"
| "handle env ClickResume w =
     (if isRecording (current w) \<and> isPaused (current w) then Some (resumeRecording w) else None)"
| "handle env ClickClear w =
     (if isRecording (current w) then Some (clearTranscript w) else None)"
| "handle env ClickStop w =
     (if isRecording (current w) then Some (stopRecording env (current w) w) else None)"
| "handle env (MediaGranted k stream dataArray) w =
     (if k < length (acquiring w)
      then Some (startAudioMonitoring_granted (acquiring w ! k) stream dataArray
                   (w\<lparr>acquiring := drop_nth k (acquiring w)\<rparr>))
      else None)"
| "handle env (MediaRefused k) w =
     (if k < length (acquiring w)
      then Some (startAudioMonitoring_refused (w\<lparr>acquiring := drop_nth k (acquiring w)\<rparr>))
      else None)"
| "handle env (AnimationFrame k dataArray) w =
     (if k < length (frames w)
      then Some (updateLevel (frames w ! k) dataArray (w\<lparr>frames := drop_nth k (frames w)\<rparr>))
      else None)"
| "handle env (TimerTick t) w =
     (if SetInterval t \<in> set (trace w) \<and> ClearInterval t \<notin> set (trace w)
      then Some (timer_tick w) else None)"
| "handle env (RecResult r ev) w =
     (if started r w then Some (recognition_onresult ev w) else None)"
| "handle env (RecError r error) w =
     (if started r w then Some (recognition_onerror env (recognitions w ! r) error w) else None)"
| "handle env (RecEnd r) w =
     (if started r w then Some (recognition_onend (recognitions w ! r) r w) else None)"

definition step :: "env \<Rightarrow> event \<Rightarrow> world \<Rightarrow> world option" where
  "step env e w = map_option (render env) (handle env e w)"

fun run :: "env \<Rightarrow> event list \<Rightarrow> world \<Rightarrow> world option" where
  "run env [] w = Some w"
| "run env (e # es) w = (case step env e w of None \<Rightarrow> None | Some w' \<Rightarrow> run env es w')"

text \<open>Batches of one result, as the recognition service delivers them one at a time.\<close>

definition finalBatch :: "string \<Rightarrow> speechEvent" where
  "finalBatch s = \<lparr>resultIndex = 0, results = [\<lparr>isFinal = True, firstTranscript = s\<rparr>]\<rparr>"

definition interimBatch :: "string \<Rightarrow> speechEvent" where
  "interimBatch s = \<lparr>resultIndex = 0, results = [\<lparr>isFinal = False, firstTranscript = s\<rparr>]\<rparr>"

text \<open>The results of a batch that the loop visits, and the final ones among them.\<close>

definition visited :: "speechEvent \<Rightarrow> speechResult list" where
  "visited event = drop (resultIndex event) (results event)"

definition finals :: "speechEvent \<Rightarrow> speechResult list" where
  "finals event = filter isFinal (visited event)"

text \<open>A host that passes both callbacks, in a browser with speech recognition.\<close>

definition chatHost :: env where
  "chatHost = \<lparr>onSendGiven = True, hasWebkitSpeechRecognition = True\<rparr>"

text \<open>
  For stating what \<^verbatim>\<open>stopRecording\<close> does: the calls by which it lets go of the
  recognition object, the timer, the microphone tracks and the audio context, as far as the
  refs are set; the calls to the host for a transcript; and the calls to the host within a
  trace.
\<close>

definition releases :: "world \<Rightarrow> effect list" where
  "releases w =
     (case recognitionRef w of None \<Rightarrow> [] | Some r \<Rightarrow> [RecognitionStop r])
     @ (case timerRef w of None \<Rightarrow> [] | Some t \<Rightarrow> [ClearInterval t])
     @ (case streamRef w of None \<Rightarrow> [] | Some tracks \<Rightarrow> map TrackStop tracks)
     @ (case audioContextRef w of None \<Rightarrow> [] | Some a \<Rightarrow> [AudioContextClose a])"

definition callbacks :: "env \<Rightarrow> string \<Rightarrow> effect list" where
  "callbacks env text =
     (if trim text = [] then []
      else if onSendGiven env then [OnTranscript (trim text), OnSend (trim text)]
      else [OnTranscript (trim text)])"

fun isHostCall :: "effect \<Rightarrow> bool" where
  "isHostCall (OnTranscript text) = True"
| "isHostCall (OnSend text) = True"
| "isHostCall e = False"

definition hostCalls :: "effect list \<Rightarrow> effect list" where
  "hostCalls tr = filter isHostCall tr"

text \<open>The range of the audio level.\<close>

definition levelInRange :: "world \<Rightarrow> bool" where
  "levelInRange w = (0 \<le> audioLevel (st w) \<and> audioLevel (st w) \<le> 100)"

text \<open>
  Two invariants of a mounted component. The closures of the sampling loop all hold
  \<^verbatim>\<open>isRecording = false\<close>: \<^verbatim>\<open>startRecording\<close> belongs to a render that shows the Start button.
  Every recognition object that has been started holds constants other than recording and
  not paused: \<^verbatim>\<open>recognitionRef\<close> holds the object of the latest effect run, whose constants
  agree with the render that shows the button clicked, and \<^verbatim>\<open>start()\<close> is called on it by
  Start (shown when not recording) and by Resume (shown when paused).
\<close>

definition staleLoops :: "world \<Rightarrow> bool" where
  "staleLoops w = (\<forall>c \<in> set (acquiring w) \<union> set (frames w). \<not> isRecording c)"

definition startedStale :: "env \<Rightarrow> world \<Rightarrow> bool" where
  "startedStale env w =
     ((hasWebkitSpeechRecognition env \<or> recognitionRef w = None)
      \<and> (\<forall>r. recognitionRef w = Some r \<longrightarrow>
            r < length (recognitions w)
            \<and> isRecording (recognitions w ! r) = isRecording (current w)
            \<and> isPaused (recognitions w ! r) = isPaused (current w))
      \<and> (\<forall>r. RecognitionStart r \<in> set (trace w) \<longrightarrow>
            r < length (recognitions w)
            \<and> \<not> (isRecording (recognitions w ! r) \<and> \<not> isPaused (recognitions w ! r))))"

text \<open>The calls to the host that one \<^verbatim>\<open>stopRecording\<close> can make: none, or \<^verbatim>\<open>onTranscript\<close> with a
  text that is not empty, followed at once by \<^verbatim>\<open>onSend\<close> with the same text exactly when
  \<^verbatim>\<open>onSend\<close> is given.\<close>

fun oneCall :: "env \<Rightarrow> effect list \<Rightarrow> bool" where
  "oneCall env [] = True"
| "oneCall env [OnTranscript t] = (t \<noteq> [] \<and> \<not> onSendGiven env)"
| "oneCall env [OnTranscript t, OnSend t'] = (t \<noteq> [] \<and> t' = t \<and> onSendGiven env)"
| "oneCall env cb = False"

section \<open>Basic facts\<close>

lemmas setter_defs =
  setIsRecording_def setIsPaused_def setTranscript_def setInterimTranscript_def
  setAudioLevel_def setRecordingTime_def emit_def

lemma seq_Nil [simp]: "seq [] w = w"
  by (simp add: seq_def)

lemma seq_Cons [simp]: "seq (f # fs) w = seq fs (f w)"
  by (simp add: seq_def)

lemma onresult_loop_eq:
  "onresult_loop rs i (interim, final) =
     (interim @ concat (map firstTranscript (filter (\<lambda>r. \<not> isFinal r) (drop i rs))),
      final @ concat (map (\<lambda>r. firstTranscript r @ '' '') (filter isFinal (drop i rs))))"
proof (induction rs i "(interim, final)" arbitrary: interim final rule: onresult_loop.induct)
  case (1 rs i interim final)
  show ?case
  proof (cases "i < length rs")
    case True
    then have d: "drop i rs = rs ! i # drop (Suc i) rs"
      by (simp add: Cons_nth_drop_Suc)
    show ?thesis
    proof (cases "isFinal (rs ! i)")
      case True
      with \<open>i < length rs\<close> "1.hyps"(1) [OF \<open>i < length rs\<close> refl True] d show ?thesis
        by (subst onresult_loop.simps) simp
    next
      case False
      with \<open>i < length rs\<close> "1.hyps"(2) [OF \<open>i < length rs\<close> refl False] d show ?thesis
        by (subst onresult_loop.simps) simp
    qed
  next
    case False
    then show ?thesis
      by (subst onresult_loop.simps) simp
  qed
qed

lemma final_text_empty_iff:
  "concat (map (\<lambda>r. firstTranscript r @ '' '') rs) = [] \<longleftrightarrow> rs = []"
  by (cases rs) simp_all

lemma no_finals_filter:
  "filter isFinal rs = [] \<Longrightarrow> filter (\<lambda>r. \<not> isFinal r) rs = rs"
  by (induction rs) (auto split: if_splits)

lemma recognition_onresult_eq:
  "recognition_onresult event w =
     (if finals event \<noteq> [] then
        w\<lparr>st := (st w)\<lparr>transcript :=
              transcript (st w) @ concat (map (\<lambda>r. firstTranscript r @ '' '') (finals event)),
            interimTranscript := []\<rparr>\<rparr>
      else
        w\<lparr>st := (st w)\<lparr>interimTranscript := concat (map firstTranscript (visited event))\<rparr>\<rparr>)"
proof (cases "finals event = []")
  case True
  then have "filter (\<lambda>r. \<not> isFinal r) (visited event) = visited event"
    by (simp add: finals_def no_finals_filter)
  with True show ?thesis
    by (simp add: recognition_onresult_def onresult_loop_eq setter_defs
        flip: visited_def finals_def)
next
  case False
  then show ?thesis
    by (simp add: recognition_onresult_def onresult_loop_eq final_text_empty_iff setter_defs
        flip: visited_def finals_def)
qed

lemma seq_TrackStop:
  "seq (map (\<lambda>track. emit (TrackStop track)) tracks) w = w\<lparr>trace := trace w @ map TrackStop tracks\<rparr>"
  by (induction tracks arbitrary: w) (simp_all add: emit_def)

lemma stopRecording_eq:
  "stopRecording env c w =
     w\<lparr>st := (st w)\<lparr>isRecording := False, isPaused := False, audioLevel := 0\<rparr>,
       trace := trace w @ releases w @ callbacks env (transcript c)\<rparr>"
  by (simp add: stopRecording_def releases_def callbacks_def seq_TrackStop setter_defs
      split: option.split)

lemma pauseRecording_eq:
  "pauseRecording w =
     w\<lparr>st := (st w)\<lparr>isPaused := True\<rparr>,
       trace := trace w @ (case recognitionRef w of None \<Rightarrow> [] | Some r \<Rightarrow> [RecognitionStop r])\<rparr>"
  by (simp add: pauseRecording_def setter_defs split: option.split)

lemma resumeRecording_eq:
  "resumeRecording w =
     w\<lparr>st := (st w)\<lparr>isPaused := False\<rparr>,
       trace := trace w @ (case recognitionRef w of None \<Rightarrow> [] | Some r \<Rightarrow> [RecognitionStart r])\<rparr>"
  by (simp add: resumeRecording_def setter_defs split: option.split)

lemma startRecording_eq:
  "startRecording c w =
     (case recognitionRef w of
        None \<Rightarrow> w\<lparr>trace := trace w @ [Alert ''Speech recognition not available'']\<rparr>
      | Some r \<Rightarrow>
          w\<lparr>st := (st w)\<lparr>isRecording := True, isPaused := False, transcript := [],
                interimTranscript := [], recordingTime := 0\<rparr>,
            trace := trace w @ [RecognitionStart r, GetUserMedia],
            acquiring := acquiring w @ [c]\<rparr>)"
  by (simp add: startRecording_def setter_defs split: option.split)

lemma render_st [simp]: "st (render env w) = st w"
  by (simp add: render_def Let_def useEffect_body_def useEffect_cleanup_def emit_def
      split: option.split)

lemma render_current [simp]: "current (render env w) = st w"
  by (simp add: render_def Let_def useEffect_body_def useEffect_cleanup_def emit_def
      split: option.split)

lemma render_hostCalls [simp]: "hostCalls (trace (render env w)) = hostCalls (trace w)"
  by (simp add: render_def Let_def useEffect_body_def useEffect_cleanup_def emit_def hostCalls_def
      split: option.split)

lemma render_acquiring [simp]: "acquiring (render env w) = acquiring w"
  by (simp add: render_def Let_def useEffect_body_def useEffect_cleanup_def emit_def
      split: option.split)

lemma render_frames [simp]: "frames (render env w) = frames w"
  by (simp add: render_def Let_def useEffect_body_def useEffect_cleanup_def emit_def
      split: option.split)

lemma render_ClearInterval [simp]:
  "ClearInterval t \<in> set (trace (render env w)) \<longleftrightarrow> ClearInterval t \<in> set (trace w)"
  by (simp add: render_def Let_def useEffect_body_def useEffect_cleanup_def emit_def
      split: option.split)

lemma updateLevel_eq:
  "updateLevel c dataArray w =
     (if isRecording c \<and> \<not> isPaused c then
        w\<lparr>st := (st w)\<lparr>audioLevel :=
              min 100 (real (sum_list (map unat dataArray)) / 128 / 255 * 150)\<rparr>,
          trace := trace w @ [RequestAnimationFrame],
          frames := frames w @ [c]\<rparr>
      else w)"
  by (simp add: updateLevel_def Let_def bufferLength_def fftSize_def setter_defs)


lemma releases_simps [simp]:
  "releases (w\<lparr>st := s\<rparr>) = releases w"
  "releases (w\<lparr>trace := tr\<rparr>) = releases w"
  "releases (w\<lparr>acquiring := a\<rparr>) = releases w"
  "releases (w\<lparr>frames := f\<rparr>) = releases w"
  by (simp_all add: releases_def)

lemma recognition_onerror_eq:
  "recognition_onerror env c error w =
     (if error = ''no-speech'' then w\<lparr>trace := trace w @ [ConsoleError ''Speech recognition error:'']\<rparr>
      else w\<lparr>st := (st w)\<lparr>isRecording := False, isPaused := False, audioLevel := 0\<rparr>,
             trace := trace w @ [ConsoleError ''Speech recognition error:''] @ releases w
                      @ callbacks env (transcript c)\<rparr>)"
  by (simp add: recognition_onerror_def stopRecording_eq emit_def)

lemma recognition_onend_eq:
  "recognition_onend c r w =
     (if isRecording c \<and> \<not> isPaused c then w\<lparr>trace := trace w @ [RecognitionStart r]\<rparr> else w)"
  by (simp add: recognition_onend_def emit_def)

lemma clearTranscript_eq:
  "clearTranscript w = w\<lparr>st := (st w)\<lparr>transcript := [], interimTranscript := []\<rparr>\<rparr>"
  by (simp add: clearTranscript_def setter_defs)

lemma timer_tick_eq:
  "timer_tick w = w\<lparr>st := (st w)\<lparr>recordingTime := recordingTime (st w) + 1\<rparr>\<rparr>"
  by (simp add: timer_tick_def setter_defs)

lemma startTimer_eq:
  "startTimer w = w\<lparr>timerRef := Some (fresh w), fresh := fresh w + 1,
      trace := trace w @ [SetInterval (fresh w)]\<rparr>"
  by (simp add: startTimer_def emit_def)

lemma startAudioMonitoring_refused_eq:
  "startAudioMonitoring_refused w =
     w\<lparr>timerRef := Some (fresh w), fresh := fresh w + 1,
       trace := trace w @ [ConsoleError ''Error accessing microphone:'',
         Alert ''Could not access microphone. Please grant permission.'', SetInterval (fresh w)]\<rparr>"
  by (simp add: startAudioMonitoring_refused_def startTimer_eq emit_def)

lemma callbacks_hostCalls [simp]: "hostCalls (callbacks env text) = callbacks env text"
  by (simp add: hostCalls_def callbacks_def)

lemma releases_hostCalls [simp]: "hostCalls (releases w) = []"
  by (simp add: hostCalls_def releases_def comp_def split: option.split)

lemma hostCalls_append [simp]: "hostCalls (xs @ ys) = hostCalls xs @ hostCalls ys"
  by (simp add: hostCalls_def)

lemma hostCalls_Nil [simp]: "hostCalls [] = []"
  by (simp add: hostCalls_def)

lemma hostCalls_Cons [simp]:
  "hostCalls (e # xs) = (if isHostCall e then e # hostCalls xs else hostCalls xs)"
  by (simp add: hostCalls_def)

lemmas handler_eqs =
  stopRecording_eq pauseRecording_eq resumeRecording_eq startRecording_eq
  recognition_onerror_eq recognition_onend_eq clearTranscript_eq timer_tick_eq
  startAudioMonitoring_refused_eq updateLevel_eq recognition_onresult_eq

lemma startAudioMonitoring_granted_st:
  "st (startAudioMonitoring_granted c stream dataArray w) = st (updateLevel c dataArray w)"
  by (simp add: startAudioMonitoring_granted_def startTimer_eq updateLevel_eq)

lemma handle_hostCalls:
  assumes "handle env e w = Some w'"
  shows "hostCalls (trace w') = hostCalls (trace w) @
     (case e of
        ClickStop \<Rightarrow> callbacks env (transcript (current w))
      | RecError r error \<Rightarrow>
          if error = ''no-speech'' then [] else callbacks env (transcript (recognitions w ! r))
      | _ \<Rightarrow> [])"
  using assms
  by (cases e)
     (auto simp add: handler_eqs startAudioMonitoring_granted_def startTimer_eq
       split: if_splits option.splits)

lemma run_invariant:
  assumes "run env es w0 = Some w" and "P w0"
    and "\<And>e w w'. P w \<Longrightarrow> step env e w = Some w' \<Longrightarrow> P w'"
  shows "P w"
  using assms(1,2)
proof (induction es arbitrary: w0)
  case Nil
  then show ?case by simp
next
  case (Cons e es)
  then show ?case
    by (auto split: option.splits intro: assms(3))
qed

lemma mount_current: "current (mount env) = st (mount env)"
  by (simp add: mount_def useEffect_body_def emit_def)

lemma step_current: "step env e w = Some w' \<Longrightarrow> current w' = st w'"
  by (auto simp add: step_def)

lemma run_current: "run env es (mount env) = Some w \<Longrightarrow> current w = st w"
  by (rule run_invariant [where P = "\<lambda>w. current w = st w"]) (auto simp add: mount_current step_current)

lemma step_hostCalls:
  assumes "step env e w = Some w'"
  shows "hostCalls (trace w') = hostCalls (trace w) @
     (case e of
        ClickStop \<Rightarrow> callbacks env (transcript (current w))
      | RecError r error \<Rightarrow>
          if error = ''no-speech'' then [] else callbacks env (transcript (recognitions w ! r))
      | _ \<Rightarrow> [])"
  using assms by (auto simp add: step_def handle_hostCalls)

text \<open>Everything needed to run the component on a concrete list of events.\<close>

lemmas run_defs =
  step_def handler_eqs render_def useEffect_body_def useEffect_cleanup_def
  emit_def mount_def chatHost_def initialHooks_def started_def drop_nth_def
  startAudioMonitoring_granted_def startTimer_eq finalBatch_def interimBatch_def
  finals_def visited_def releases_def callbacks_def trim_def isWhiteSpace_def Let_def

lemma render_SetInterval [simp]:
  "SetInterval t \<in> set (trace (render env w)) \<longleftrightarrow> SetInterval t \<in> set (trace w)"
  by (simp add: render_def Let_def useEffect_body_def useEffect_cleanup_def emit_def
      split: option.split)

lemma render_RequestAnimationFrame [simp]:
  "RequestAnimationFrame \<in> set (trace (render env w)) \<longleftrightarrow> RequestAnimationFrame \<in> set (trace w)"
  by (simp add: render_def Let_def useEffect_body_def useEffect_cleanup_def emit_def
      split: option.split)

lemma set_drop_nth: "set (drop_nth k xs) \<subseteq> set xs"
  by (auto simp add: drop_nth_def dest: in_set_takeD in_set_dropD)

lemma handle_staleLoops:
  assumes "handle env e w = Some w'" and "staleLoops w"
  shows "staleLoops w'"
proof (cases e)
  case (MediaGranted k stream dataArray)
  with assms have k: "k < length (acquiring w)"
    by (simp split: if_splits)
  with assms(2) have "\<not> isRecording (acquiring w ! k)"
    by (simp add: staleLoops_def)
  with assms MediaGranted k show ?thesis
    using set_drop_nth [of k "acquiring w"]
    by (auto simp add: staleLoops_def startAudioMonitoring_granted_def startTimer_eq updateLevel_eq)
next
  case (MediaRefused k)
  with assms show ?thesis
    using set_drop_nth [of k "acquiring w"]
    by (auto simp add: staleLoops_def startAudioMonitoring_refused_eq split: if_splits)
next
  case (AnimationFrame k dataArray)
  with assms have k: "k < length (frames w)"
    by (simp split: if_splits)
  with assms(2) have "\<not> isRecording (frames w ! k)"
    by (simp add: staleLoops_def)
  with assms AnimationFrame k show ?thesis
    using set_drop_nth [of k "frames w"]
    by (auto simp add: staleLoops_def updateLevel_eq)
qed (use assms in \<open>auto simp add: staleLoops_def handler_eqs split: if_splits option.splits\<close>)

lemma run_staleLoops: "run env es (mount env) = Some w \<Longrightarrow> staleLoops w"
proof (rule run_invariant [where P = staleLoops])
  show "staleLoops (mount env)"
    by (simp add: staleLoops_def mount_def useEffect_body_def emit_def)
next
  fix e w w'
  assume "staleLoops w" and "step env e w = Some w'"
  then show "staleLoops w'"
    by (auto simp add: step_def staleLoops_def dest: handle_staleLoops [unfolded staleLoops_def])
qed simp

text \<open>
  In a mounted component the test succeeds in every tick, whatever the session does: the
  \<^verbatim>\<open>isRecording\<close> that \<^verbatim>\<open>updateLevel\<close> reads is the constant of the render in which Start was
  clicked. No level is ever stored and no frame is ever requested.
\<close>

lemma no_tick_in_a_run:
  assumes "run env es (mount env) = Some w"
  shows "audioLevel (st w) = 0 \<and> frames w = [] \<and> RequestAnimationFrame \<notin> set (trace w)"
proof (rule run_invariant [where P = "\<lambda>w. staleLoops w \<and> audioLevel (st w) = 0 \<and> frames w = []
      \<and> RequestAnimationFrame \<notin> set (trace w)", OF assms, THEN conjunct2])
  show "staleLoops (mount env) \<and> audioLevel (st (mount env)) = 0 \<and> frames (mount env) = []
      \<and> RequestAnimationFrame \<notin> set (trace (mount env))"
    by (simp add: staleLoops_def mount_def useEffect_body_def emit_def initialHooks_def)
next
  fix e w w'
  assume inv: "staleLoops w \<and> audioLevel (st w) = 0 \<and> frames w = []
      \<and> RequestAnimationFrame \<notin> set (trace w)"
    and s: "step env e w = Some w'"
  from s obtain v where h: "handle env e w = Some v" and w': "w' = render env v"
    by (auto simp add: step_def)
  from h inv have sl: "staleLoops v"
    by (auto intro: handle_staleLoops)
  have "audioLevel (st v) = 0 \<and> frames v = [] \<and> RequestAnimationFrame \<notin> set (trace v)"
  proof (cases e)
    case (MediaGranted k stream dataArray)
    with h have k: "k < length (acquiring w)"
      by (simp split: if_splits)
    with inv have "\<not> isRecording (acquiring w ! k)"
      by (simp add: staleLoops_def)
    with h inv MediaGranted k show ?thesis
      by (auto simp add: startAudioMonitoring_granted_def startTimer_eq updateLevel_eq)
  qed (use h inv in \<open>auto simp add: handler_eqs releases_def callbacks_def
        split: if_splits option.splits\<close>)
  with sl w' show "staleLoops w' \<and> audioLevel (st w') = 0 \<and> frames w' = []
      \<and> RequestAnimationFrame \<notin> set (trace w')"
    by (simp add: staleLoops_def)
qed

section \<open>The claims\<close>

subsection \<open>C1: stopping twice\<close>

text \<open>
  Claim C1 says that a second \<^verbatim>\<open>stop()\<close> releases nothing again and does not call
  \<^verbatim>\<open>onTranscript\<close> again. \<^verbatim>\<open>stopRecording\<close> tests the refs, never the state, and sets no ref
  to \<^verbatim>\<open>null\<close>; the transcript is not emptied either. Called twice on a world with a
  recognition object, a timer, a stream of one track, an audio context and the finalized
  text \<^verbatim>\<open>"hi "\<close>, it stops the track, closes the context and calls both callbacks twice.
\<close>

theorem stopRecording_twice_counterexample:
  "trace (stopRecording chatHost (initialHooks\<lparr>transcript := ''hi ''\<rparr>)
       (stopRecording chatHost (initialHooks\<lparr>transcript := ''hi ''\<rparr>)
          ((mount chatHost)\<lparr>timerRef := Some 2, streamRef := Some [7], audioContextRef := Some 1\<rparr>)))
   = [RecognitionStop 0, ClearInterval 2, TrackStop 7, AudioContextClose 1,
        OnTranscript ''hi'', OnSend ''hi'',
      RecognitionStop 0, ClearInterval 2, TrackStop 7, AudioContextClose 1,
        OnTranscript ''hi'', OnSend ''hi'']"
  by (simp add: stopRecording_eq releases_def callbacks_def trim_def isWhiteSpace_def
      mount_def useEffect_body_def chatHost_def initialHooks_def)

text \<open>
  The same happens in a run of the mounted component. The Stop button disappears with the
  first stop, but a recognition object that was started (here the one that Resume started)
  can still report an error, and \<^verbatim>\<open>onerror\<close> calls \<^verbatim>\<open>stopRecording\<close> again.
\<close>

lemma double_stop_reachable:
  "map_option (\<lambda>w. (isRecording (st w), trace w))
     (run chatHost [ClickStart, MediaGranted 0 [7] [], RecResult 0 (finalBatch ''hi''),
        ClickPause, ClickResume, ClickStop, RecError 2 ''network''] (mount chatHost))
   = Some (False,
      [RecognitionStart 0, GetUserMedia, RecognitionStop 0, SetInterval 2,
       RecognitionStop 1, RecognitionStop 1, RecognitionStart 2, RecognitionStop 2,
       RecognitionStop 3, ClearInterval 2, TrackStop 7, AudioContextClose 1,
       OnTranscript ''hi'', OnSend ''hi'', RecognitionStop 3,
       ConsoleError ''Speech recognition error:'',
       RecognitionStop 4, ClearInterval 2, TrackStop 7, AudioContextClose 1,
       OnTranscript ''hi'', OnSend ''hi''])"
  by (simp add: run_defs)

text \<open>
  Claim C1, amended. \<^verbatim>\<open>stop()\<close> is idempotent on the state only: a second \<^verbatim>\<open>stop()\<close> leaves
  every state cell as the first left it. \<^verbatim>\<open>stop()\<close> leaves the four refs set, so the second
  call repeats every release of the first (\<^verbatim>\<open>recognition.stop()\<close>, \<^verbatim>\<open>clearInterval\<close>,
  \<^verbatim>\<open>track.stop()\<close> for each track, \<^verbatim>\<open>audioContext.close()\<close>) and then calls \<^verbatim>\<open>onTranscript\<close>
  (and \<^verbatim>\<open>onSend\<close>) again whenever the transcript its closure holds is not blank.
\<close>

theorem stopRecording_twice:
  "st (stopRecording env c' (stopRecording env c w)) = st (stopRecording env c w)
   \<and> recognitionRef (stopRecording env c w) = recognitionRef w
   \<and> timerRef (stopRecording env c w) = timerRef w
   \<and> streamRef (stopRecording env c w) = streamRef w
   \<and> audioContextRef (stopRecording env c w) = audioContextRef w
   \<and> trace (stopRecording env c w) = trace w @ releases w @ callbacks env (transcript c)
   \<and> trace (stopRecording env c' (stopRecording env c w))
       = trace (stopRecording env c w) @ releases w @ callbacks env (transcript c')"
  by (simp add: stopRecording_eq)

subsection \<open>C2: result batches\<close>

text \<open>
  Claim C2 ends with an example: from empty transcripts, the batches final \<^verbatim>\<open>"hello "\<close>,
  interim \<^verbatim>\<open>"wor"\<close>, final \<^verbatim>\<open>"world "\<close> leave the finalized transcript \<^verbatim>\<open>"hello world "\<close>.
  The handler appends a space to every final text (line 34), also to one that ends in a
  space: the finalized transcript is \<^verbatim>\<open>"hello  world  "\<close>, with two spaces after each word.
\<close>

theorem onresult_example_counterexample:
  "transcript (st (recognition_onresult (finalBatch ''world '')
      (recognition_onresult (interimBatch ''wor'')
        (recognition_onresult (finalBatch ''hello '') (mount chatHost))))) = ''hello  world  ''
   \<and> transcript (st (recognition_onresult (finalBatch ''world '')
      (recognition_onresult (interimBatch ''wor'')
        (recognition_onresult (finalBatch ''hello '') (mount chatHost))))) \<noteq> ''hello world ''"
  by (simp add: recognition_onresult_eq finalBatch_def interimBatch_def finals_def visited_def
      mount_def useEffect_body_def chatHost_def initialHooks_def)

text \<open>
  Claim C2, amended. A batch with a final result among those it visits appends to the
  finalized transcript the text of each final result followed by one space, and empties
  the interim transcript. A batch with no final result replaces the interim transcript by
  the texts of its results and leaves the finalized transcript as it is. From an empty
  finalized transcript, the batches final \<^verbatim>\<open>"hello"\<close>, interim \<^verbatim>\<open>"wor"\<close>, final \<^verbatim>\<open>"world"\<close>
  leave the finalized transcript \<^verbatim>\<open>"hello world "\<close> and the interim transcript empty; with
  the texts \<^verbatim>\<open>"hello "\<close> and \<^verbatim>\<open>"world "\<close> the finalized transcript is \<^verbatim>\<open>"hello  world  "\<close>.
\<close>

theorem recognition_onresult_batches:
  "(finals event \<noteq> [] \<longrightarrow>
      transcript (st (recognition_onresult event w))
        = transcript (st w) @ concat (map (\<lambda>r. firstTranscript r @ '' '') (finals event))
      \<and> interimTranscript (st (recognition_onresult event w)) = [])
   \<and> (finals event = [] \<longrightarrow>
      interimTranscript (st (recognition_onresult event w))
        = concat (map firstTranscript (visited event))
      \<and> transcript (st (recognition_onresult event w)) = transcript (st w))
   \<and> transcript (st (recognition_onresult (finalBatch s) w)) = transcript (st w) @ s @ '' ''
   \<and> interimTranscript (st (recognition_onresult (interimBatch s) w)) = s
   \<and> (transcript (st w) = [] \<longrightarrow>
      transcript (st (recognition_onresult (finalBatch ''world'')
        (recognition_onresult (interimBatch ''wor'')
          (recognition_onresult (finalBatch ''hello'') w)))) = ''hello world ''
      \<and> interimTranscript (st (recognition_onresult (finalBatch ''world'')
        (recognition_onresult (interimBatch ''wor'')
          (recognition_onresult (finalBatch ''hello'') w)))) = []
      \<and> transcript (st (recognition_onresult (finalBatch ''world '')
        (recognition_onresult (interimBatch ''wor'')
          (recognition_onresult (finalBatch ''hello '') w)))) = ''hello  world  '')"
  by (simp add: recognition_onresult_eq finalBatch_def interimBatch_def finals_def visited_def)

theorem recognition_onresult_batches_witness:
  "finals \<lparr>resultIndex = 1, results = [\<lparr>isFinal = True, firstTranscript = ''hello''\<rparr>,
       \<lparr>isFinal = True, firstTranscript = ''big''\<rparr>, \<lparr>isFinal = False, firstTranscript = ''wor''\<rparr>]\<rparr> \<noteq> []
   \<and> transcript (st (recognition_onresult
        \<lparr>resultIndex = 1, results = [\<lparr>isFinal = True, firstTranscript = ''hello''\<rparr>,
          \<lparr>isFinal = True, firstTranscript = ''big''\<rparr>, \<lparr>isFinal = False, firstTranscript = ''wor''\<rparr>]\<rparr>
        ((mount chatHost)\<lparr>st := initialHooks\<lparr>transcript := ''hello '', interimTranscript := ''bi''\<rparr>\<rparr>)))
      = ''hello big ''
   \<and> finals (interimBatch ''wor'') = []
   \<and> interimTranscript (st (recognition_onresult (interimBatch ''wor'')
        ((mount chatHost)\<lparr>st := initialHooks\<lparr>transcript := ''hello '', interimTranscript := ''w''\<rparr>\<rparr>)))
      = ''wor''
   \<and> transcript (st (mount chatHost)) = []
   \<and> transcript (st (recognition_onresult (finalBatch ''world'')
        (recognition_onresult (interimBatch ''wor'')
          (recognition_onresult (finalBatch ''hello'') (mount chatHost))))) = ''hello world ''"
  using recognition_onresult_batches [of "\<lparr>resultIndex = 1, results = [\<lparr>isFinal = True, firstTranscript = ''hello''\<rparr>,
          \<lparr>isFinal = True, firstTranscript = ''big''\<rparr>, \<lparr>isFinal = False, firstTranscript = ''wor''\<rparr>]\<rparr>"
        "(mount chatHost)\<lparr>st := initialHooks\<lparr>transcript := ''hello '', interimTranscript := ''bi''\<rparr>\<rparr>" "''wor''"]
    recognition_onresult_batches [of "interimBatch ''wor''"
        "(mount chatHost)\<lparr>st := initialHooks\<lparr>transcript := ''hello '', interimTranscript := ''w''\<rparr>\<rparr>" "''wor''"]
    recognition_onresult_batches [of "interimBatch ''wor''" "mount chatHost" "''wor''"]
  by (simp add: finals_def visited_def interimBatch_def mount_def useEffect_body_def chatHost_def initialHooks_def)

subsection \<open>C3: the callbacks of stop\<close>

lemma start_then_stop:
  assumes "step env ClickStart w = Some w1" and "step env ClickStop w1 = Some w2"
    and cur: "current w = st w"
  shows "transcript (st w2) = [] \<and> hostCalls (trace w2) = hostCalls (trace w)"
proof -
  from assms(2) have rec: "isRecording (current w1)"
    by (auto simp add: step_def split: if_splits)
  from assms(1) have c1: "current w1 = st w1"
    by (rule step_current)
  from assms(1) obtain r where r: "recognitionRef w = Some r"
    using rec c1 cur
    by (cases "recognitionRef w") (auto simp add: step_def startRecording_eq split: if_splits)
  from assms(1) r have t1: "transcript (st w1) = []"
    by (auto simp add: step_def startRecording_eq split: if_splits)
  from assms(1) have h1: "hostCalls (trace w1) = hostCalls (trace w)"
    using step_hostCalls [OF assms(1)] by simp
  from assms(2) have "transcript (st w2) = transcript (st w1)"
    by (auto simp add: step_def stopRecording_eq split: if_splits)
  moreover have "hostCalls (trace w2) = hostCalls (trace w1)"
    using step_hostCalls [OF assms(2)] c1 t1 by (simp add: callbacks_def trim_def)
  ultimately show ?thesis
    using t1 h1 by simp
qed

lemma oneCall_callbacks: "oneCall env (callbacks env text)"
  by (simp add: callbacks_def)

lemma render_trace: "\<exists>post. trace (render env w) = trace w @ post \<and> hostCalls post = []"
  by (simp add: render_def Let_def useEffect_body_def useEffect_cleanup_def emit_def
      split: option.split)

lemma step_oneCall:
  assumes "step env e w = Some w'"
  shows "\<exists>cb. hostCalls (trace w') = hostCalls (trace w) @ cb \<and> oneCall env cb"
  using step_hostCalls [OF assms]
  by (cases e) (auto simp add: oneCall_callbacks)

lemma step_host_only_stop:
  assumes "step env e w = Some w'" and "hostCalls (trace w') \<noteq> hostCalls (trace w)"
  shows "e = ClickStop \<or> (\<exists>r error. e = RecError r error \<and> error \<noteq> ''no-speech'')"
  using step_hostCalls [OF assms(1)] assms(2)
  by (cases e) (auto split: if_splits)

lemma click_stop_trace:
  assumes "run env es (mount env) = Some w" and "step env ClickStop w = Some w'"
  shows "\<exists>post. trace w' = trace w @ releases w @ callbacks env (transcript (st w)) @ post
           \<and> hostCalls post = []"
proof -
  from assms(1) have c: "current w = st w"
    by (rule run_current)
  from assms(2) c have "w' = render env (stopRecording env (st w) w)"
    by (auto simp add: step_def split: if_splits)
  with render_trace [of env "stopRecording env (st w) w"] show ?thesis
    by (auto simp add: stopRecording_eq)
qed

text \<open>
  Claim C3 says that a session calls \<^verbatim>\<open>onTranscript\<close> at most once, and only with a finalized
  transcript that, trimmed, is not empty. \<^verbatim>\<open>stopRecording\<close> is called by the Stop button and
  by \<^verbatim>\<open>onerror\<close>, and nothing keeps it from running twice in a session. In the first run
  below the transcript is cleared before a \<^verbatim>\<open>network\<close> error arrives on the object that
  Resume started: the finalized transcript is empty and the host is called with \<^verbatim>\<open>"a"\<close>. In
  the second run Stop is followed by such an error: after one Start the host is called
  twice.
\<close>

theorem stop_calls_host_counterexample:
  "map_option (\<lambda>w. (transcript (st w), hostCalls (trace w)))
     (run chatHost [ClickStart, RecResult 0 (finalBatch ''a''), ClickPause, ClickResume,
        ClickClear, RecError 2 ''network''] (mount chatHost))
     = Some ([], [OnTranscript ''a'', OnSend ''a''])
   \<and> map_option (\<lambda>w. hostCalls (trace w))
     (run chatHost [ClickStart, RecResult 0 (finalBatch ''hi''), ClickPause, ClickResume,
        ClickStop, RecError 2 ''network''] (mount chatHost))
     = Some [OnTranscript ''hi'', OnSend ''hi'', OnTranscript ''hi'', OnSend ''hi'']"
  by (simp add: run_defs)

text \<open>
  Claim C3, amended. Each call of \<^verbatim>\<open>stopRecording\<close> calls \<^verbatim>\<open>onTranscript\<close> at most once, after
  its releases, with a text that is not empty, and \<^verbatim>\<open>onSend\<close>, when it is given, directly
  after it with the same text. A click on Stop calls \<^verbatim>\<open>onTranscript\<close> exactly when the
  finalized transcript of the current state, trimmed, is not empty, and passes the trimmed
  text. Every event makes at most one such pair of calls, and only two kinds of event make
  any: a click on Stop, and a recognition error other than \<^verbatim>\<open>no-speech\<close>, whose handler
  calls \<^verbatim>\<open>stopRecording\<close>. Start followed at once by Stop leaves the finalized transcript
  empty and calls nothing.
\<close>

theorem stop_calls_host:
  "(\<exists>cb. trace (stopRecording env c w) = trace w @ releases w @ cb \<and> oneCall env cb)
   \<and> (run env es (mount env) = Some w \<longrightarrow> step env ClickStop w = Some w' \<longrightarrow>
        (\<exists>post. trace w'
           = trace w @ releases w @
             (if trim (transcript (st w)) = [] then []
              else if onSendGiven env
                then [OnTranscript (trim (transcript (st w))), OnSend (trim (transcript (st w)))]
                else [OnTranscript (trim (transcript (st w)))])
             @ post
         \<and> hostCalls post = []))
   \<and> (step env e w = Some w' \<longrightarrow>
        (\<exists>cb. hostCalls (trace w') = hostCalls (trace w) @ cb \<and> oneCall env cb))
   \<and> (step env e w = Some w' \<longrightarrow> hostCalls (trace w') \<noteq> hostCalls (trace w) \<longrightarrow>
        e = ClickStop \<or> (\<exists>r error. e = RecError r error \<and> error \<noteq> ''no-speech''))
   \<and> (run env es (mount env) = Some w \<longrightarrow>
        step env ClickStart w = Some w1 \<longrightarrow> step env ClickStop w1 = Some w2 \<longrightarrow>
        transcript (st w2) = [] \<and> hostCalls (trace w2) = hostCalls (trace w))"
proof (intro conjI impI)
  show "\<exists>cb. trace (stopRecording env c w) = trace w @ releases w @ cb \<and> oneCall env cb"
    by (simp add: stopRecording_eq oneCall_callbacks)
next
  assume "run env es (mount env) = Some w" and "step env ClickStop w = Some w'"
  from click_stop_trace [OF this]
  show "\<exists>post. trace w'
           = trace w @ releases w @
             (if trim (transcript (st w)) = [] then []
              else if onSendGiven env
                then [OnTranscript (trim (transcript (st w))), OnSend (trim (transcript (st w)))]
                else [OnTranscript (trim (transcript (st w)))])
             @ post
         \<and> hostCalls post = []"
    by (simp add: callbacks_def)
next
  assume "step env e w = Some w'"
  then show "\<exists>cb. hostCalls (trace w') = hostCalls (trace w) @ cb \<and> oneCall env cb"
    by (rule step_oneCall)
next
  assume "step env e w = Some w'" and "hostCalls (trace w') \<noteq> hostCalls (trace w)"
  then show "e = ClickStop \<or> (\<exists>r error. e = RecError r error \<and> error \<noteq> ''no-speech'')"
    by (rule step_host_only_stop)
next
  assume "run env es (mount env) = Some w"
    and "step env ClickStart w = Some w1" and "step env ClickStop w1 = Some w2"
  then show "transcript (st w2) = []" and "hostCalls (trace w2) = hostCalls (trace w)"
    using start_then_stop [of env w w1 w2] by (simp_all add: run_current)
qed

theorem stop_calls_host_witness:
  "\<exists>w w1 v1 v2.
     run chatHost [ClickStart, RecResult 0 (finalBatch ''hi'')] (mount chatHost) = Some w
     \<and> step chatHost ClickStop w = Some w1
     \<and> hostCalls (trace w1) = [OnTranscript ''hi'', OnSend ''hi'']
     \<and> hostCalls (trace w1) \<noteq> hostCalls (trace w)
     \<and> run chatHost [] (mount chatHost) = Some (mount chatHost)
     \<and> step chatHost ClickStart (mount chatHost) = Some v1
     \<and> step chatHost ClickStop v1 = Some v2
     \<and> transcript (st v2) = [] \<and> hostCalls (trace v2) = []"
proof -
  have "\<exists>w. run chatHost [ClickStart, RecResult 0 (finalBatch ''hi'')] (mount chatHost) = Some w
     \<and> transcript (st w) = ''hi '' \<and> hostCalls (trace w) = []
     \<and> (\<exists>w1. step chatHost ClickStop w = Some w1)"
    by (simp add: run_defs)
  then obtain w w1 where
    r: "run chatHost [ClickStart, RecResult 0 (finalBatch ''hi'')] (mount chatHost) = Some w"
    and t: "transcript (st w) = ''hi ''" and h: "hostCalls (trace w) = []"
    and s1: "step chatHost ClickStop w = Some w1"
    by blast
  have "\<exists>v1. step chatHost ClickStart (mount chatHost) = Some v1
     \<and> (\<exists>v2. step chatHost ClickStop v1 = Some v2)"
    by (simp add: run_defs)
  then obtain v1 v2 where
    u1: "step chatHost ClickStart (mount chatHost) = Some v1"
    and u2: "step chatHost ClickStop v1 = Some v2"
    by blast
  have h0: "hostCalls (trace (mount chatHost)) = []"
    by (simp add: run_defs)
  from stop_calls_host [where env = chatHost and w = w and w' = w1
      and es = "[ClickStart, RecResult 0 (finalBatch ''hi'')]"] r s1
  obtain post where "trace w1 = trace w @ releases w
      @ (if trim (transcript (st w)) = [] then []
         else if onSendGiven chatHost
           then [OnTranscript (trim (transcript (st w))), OnSend (trim (transcript (st w)))]
           else [OnTranscript (trim (transcript (st w)))]) @ post"
    and "hostCalls post = []"
    by blast
  with t h have a: "hostCalls (trace w1) = [OnTranscript ''hi'', OnSend ''hi'']"
    by (simp add: trim_def isWhiteSpace_def chatHost_def)
  with h have b: "hostCalls (trace w1) \<noteq> hostCalls (trace w)"
    by simp
  from stop_calls_host [where env = chatHost and w = w and w' = w1 and e = ClickStop] s1 b
  have "ClickStop = ClickStop \<or> (\<exists>r error. ClickStop = RecError r error \<and> error \<noteq> ''no-speech'')"
    by blast
  from stop_calls_host [where env = chatHost and w = "mount chatHost" and es = "[]"
      and ?w1.0 = v1 and ?w2.0 = v2] u1 u2 h0
  have c: "transcript (st v2) = [] \<and> hostCalls (trace v2) = []"
    by simp
  from r s1 u1 u2 a b c show ?thesis
    by auto
qed

subsection \<open>C4: recognition errors\<close>

text \<open>What \<^verbatim>\<open>onerror\<close> does, for the constants \<open>c\<close> of the render whose effect created the
  recognition object: a \<^verbatim>\<open>no-speech\<close> error is logged and nothing else happens; any other
  error stops the session, keeps both transcripts in the state, and passes to the host the
  transcript that \<open>c\<close> holds.\<close>

lemma recognition_onerror_facts:
  "recognition_onerror env c ''no-speech'' w
     = w\<lparr>trace := trace w @ [ConsoleError ''Speech recognition error:'']\<rparr>"
  "error \<noteq> ''no-speech'' \<Longrightarrow>
     \<not> isRecording (st (recognition_onerror env c error w))
     \<and> \<not> isPaused (st (recognition_onerror env c error w))
     \<and> transcript (st (recognition_onerror env c error w)) = transcript (st w)
     \<and> interimTranscript (st (recognition_onerror env c error w)) = interimTranscript (st w)
     \<and> hostCalls (trace (recognition_onerror env c error w))
         = hostCalls (trace w) @ callbacks env (transcript c)"
  by (simp_all add: recognition_onerror_eq)

text \<open>
  Claim C4 says that an error other than \<^verbatim>\<open>no-speech\<close> stops the session and keeps the text
  finalized so far for the final \<^verbatim>\<open>onTranscript\<close> call. The \<^verbatim>\<open>stopRecording\<close> that \<^verbatim>\<open>onerror\<close>
  calls reads the \<^verbatim>\<open>transcript\<close> of the render whose effect created the recognition object;
  the effect runs again only when \<^verbatim>\<open>isRecording\<close> or \<^verbatim>\<open>isPaused\<close> changes, so this is the
  transcript at the last such change, not the current one. Mount, Start, a final result
  \<^verbatim>\<open>"hello"\<close>, then a \<^verbatim>\<open>network\<close> error on the started object: the session is stopped, the
  state holds \<^verbatim>\<open>"hello "\<close>, and the host is never called.
\<close>

theorem error_after_result_loses_text:
  "map_option (\<lambda>w. (isRecording (st w), isPaused (st w), transcript (st w), hostCalls (trace w), trace w))
     (run chatHost [ClickStart, RecResult 0 (finalBatch ''hello''), RecError 0 ''network'']
        (mount chatHost))
   = Some (False, False, ''hello '', [],
       [RecognitionStart 0, GetUserMedia, RecognitionStop 0,
        ConsoleError ''Speech recognition error:'', RecognitionStop 1, RecognitionStop 1])"
  by (simp add: run_defs)

subsection \<open>C5: restart when the recognition ends\<close>

lemma mount_startedStale: "startedStale env (mount env)"
  by (simp add: startedStale_def mount_def useEffect_body_def emit_def initialHooks_def)

lemma handle_frame:
  assumes "handle env e w = Some w'"
  shows "recognitions w' = recognitions w \<and> recognitionRef w' = recognitionRef w
     \<and> current w' = current w"
  using assms
  by (cases e)
     (auto simp add: handler_eqs startAudioMonitoring_granted_def startTimer_eq
       split: if_splits option.splits)

lemma handle_RecognitionStart:
  assumes "handle env e w = Some w'" and "RecognitionStart r \<in> set (trace w')"
    and "RecognitionStart r \<notin> set (trace w)"
  shows "recognitionRef w = Some r \<and> (e = ClickStart \<and> \<not> isRecording (current w)
            \<or> e = ClickResume \<and> isPaused (current w))
     \<or> e = RecEnd r \<and> started r w
         \<and> isRecording (recognitions w ! r) \<and> \<not> isPaused (recognitions w ! r)"
  using assms
  by (cases e)
     (auto simp add: handler_eqs startAudioMonitoring_granted_def startTimer_eq releases_def
       callbacks_def split: if_splits option.splits)

lemma handle_startedStale:
  assumes h: "handle env e w = Some w'" and inv: "startedStale env w"
  shows "startedStale env w'"
proof -
  note fr = handle_frame [OF h]
  have "r < length (recognitions w)
        \<and> \<not> (isRecording (recognitions w ! r) \<and> \<not> isPaused (recognitions w ! r))"
    if new: "RecognitionStart r \<in> set (trace w')" for r
  proof (cases "RecognitionStart r \<in> set (trace w)")
    case True
    with inv show ?thesis
      by (simp add: startedStale_def)
  next
    case False
    from handle_RecognitionStart [OF h new False] inv show ?thesis
      by (auto simp add: startedStale_def started_def)
  qed
  with inv fr show ?thesis
    by (simp add: startedStale_def)
qed

lemma render_startedStale:
  assumes "startedStale env w"
  shows "startedStale env (render env w)"
  using assms
  by (auto simp add: startedStale_def render_def Let_def useEffect_body_def useEffect_cleanup_def
      emit_def nth_append split: option.splits)

lemma run_startedStale: "run env es (mount env) = Some w \<Longrightarrow> startedStale env w"
proof (rule run_invariant [where P = "startedStale env"])
  show "startedStale env (mount env)"
    by (rule mount_startedStale)
next
  fix e w w'
  assume "startedStale env w" and "step env e w = Some w'"
  then show "startedStale env w'"
    by (auto simp add: step_def intro: render_startedStale handle_startedStale)
qed simp

text \<open>In no run of a mounted component does an \<^verbatim>\<open>end\<close> event make a call: the handler of
  a started object never sees \<^verbatim>\<open>isRecording && !isPaused\<close>.\<close>

lemma onend_never_restarts:
  assumes "run env es (mount env) = Some w" and "step env (RecEnd r) w = Some w'"
  shows "trace w' = trace w"
proof -
  from assms(2) have s: "started r w"
    by (auto simp add: step_def split: if_splits)
  with run_startedStale [OF assms(1)]
  have "\<not> (isRecording (recognitions w ! r) \<and> \<not> isPaused (recognitions w ! r))"
    by (simp add: startedStale_def started_def)
  with assms(2) s have "w' = render env w"
    by (auto simp add: step_def recognition_onend_eq)
  moreover from assms(1) have "current w = st w"
    by (rule run_current)
  ultimately show ?thesis
    by (simp add: render_def)
qed

text \<open>
  Claim C5 says that the engine begins to listen again whenever the recognition ends while
  the session is recording and not paused. Mount, Start, then \<^verbatim>\<open>end\<close> on the object that
  Start started: the session is recording and not paused, and \<^verbatim>\<open>recognition.start()\<close> has
  been called once, by Start. The handler holds the \<^verbatim>\<open>isRecording\<close> of the first render,
  which is false. (The \<^verbatim>\<open>stop()\<close> in the trace is the effect's cleanup, run by the render
  that follows Start.)
\<close>

theorem end_while_recording_no_restart:
  "map_option (\<lambda>w. (isRecording (st w), isPaused (st w), trace w))
     (run chatHost [ClickStart, RecEnd 0] (mount chatHost))
   = Some (True, False, [RecognitionStart 0, GetUserMedia, RecognitionStop 0])"
  by (simp add: run_defs)

subsection \<open>C6: the sampling loop stops itself\<close>

lemma granted_while_not_sampling:
  assumes "run env es (mount env) = Some w"
    and "step env (MediaGranted k stream dataArray) w = Some w'"
  shows "audioLevel (st w') = audioLevel (st w) \<and> frames w' = frames w
     \<and> RequestAnimationFrame \<notin> set (trace w') - set (trace w)"
proof -
  from assms(2) have k: "k < length (acquiring w)"
    by (auto simp add: step_def split: if_splits)
  with run_staleLoops [OF assms(1)] have "\<not> isRecording (acquiring w ! k)"
    by (simp add: staleLoops_def)
  with assms(2) k show ?thesis
    by (auto simp add: step_def startAudioMonitoring_granted_def startTimer_eq updateLevel_eq)
qed

text \<open>
  Claim C6. A tick of \<^verbatim>\<open>updateLevel\<close> first tests \<^verbatim>\<open>!isRecording || isPaused\<close>; when the test
  succeeds the tick changes nothing: it stores no level and requests no further frame, and
  nothing has to cancel it. In a mounted component whose session is paused or stopped, this
  holds for every tick that can run: for each \<^verbatim>\<open>updateLevel\<close> that awaits the microphone or
  a frame, and so for the first tick when the microphone is granted, after which the
  level is what it was and no frame is scheduled.
\<close>

theorem updateLevel_stops_itself:
  "(\<not> isRecording c \<or> isPaused c \<longrightarrow> updateLevel c dataArray w = w)
   \<and> (run env es (mount env) = Some w \<longrightarrow> c \<in> set (acquiring w) \<union> set (frames w) \<longrightarrow>
        \<not> isRecording (st w) \<or> isPaused (st w) \<longrightarrow> updateLevel c dataArray w = w)
   \<and> (run env es (mount env) = Some w \<longrightarrow> \<not> isRecording (st w) \<or> isPaused (st w) \<longrightarrow>
        step env (MediaGranted k stream dataArray) w = Some w' \<longrightarrow>
        audioLevel (st w') = audioLevel (st w) \<and> frames w' = frames w
        \<and> RequestAnimationFrame \<notin> set (trace w') - set (trace w))"
proof (intro conjI impI)
  assume "\<not> isRecording c \<or> isPaused c"
  then show "updateLevel c dataArray w = w"
    by (auto simp add: updateLevel_eq)
next
  assume "run env es (mount env) = Some w" and "c \<in> set (acquiring w) \<union> set (frames w)"
  then have "\<not> isRecording c"
    using run_staleLoops [of env es w] by (simp add: staleLoops_def)
  then show "updateLevel c dataArray w = w"
    by (simp add: updateLevel_eq)
next
  assume "run env es (mount env) = Some w"
    and "step env (MediaGranted k stream dataArray) w = Some w'"
  then show "audioLevel (st w') = audioLevel (st w)" and "frames w' = frames w"
    and "RequestAnimationFrame \<notin> set (trace w') - set (trace w)"
    using granted_while_not_sampling by blast+
qed

theorem updateLevel_stops_itself_witness:
  "isPaused (initialHooks\<lparr>isRecording := True, isPaused := True\<rparr>)
   \<and> updateLevel (initialHooks\<lparr>isRecording := True, isPaused := True\<rparr>) (replicate 128 85) (mount chatHost)
       = mount chatHost
   \<and> (\<exists>w w'. run chatHost [ClickStart, ClickPause] (mount chatHost) = Some w
        \<and> initialHooks \<in> set (acquiring w) \<union> set (frames w)
        \<and> isPaused (st w)
        \<and> updateLevel initialHooks (replicate 128 85) w = w
        \<and> step chatHost (MediaGranted 0 [7] (replicate 128 85)) w = Some w'
        \<and> audioLevel (st w') = audioLevel (st w) \<and> frames w' = frames w)"
proof -
  have "\<exists>w. run chatHost [ClickStart, ClickPause] (mount chatHost) = Some w
     \<and> initialHooks \<in> set (acquiring w) \<union> set (frames w) \<and> isPaused (st w)
     \<and> (\<exists>w'. step chatHost (MediaGranted 0 [7] (replicate 128 85)) w = Some w')"
    by (simp add: run_defs)
  then obtain w w' where
    r: "run chatHost [ClickStart, ClickPause] (mount chatHost) = Some w"
    and c: "initialHooks \<in> set (acquiring w) \<union> set (frames w)" and p: "isPaused (st w)"
    and g: "step chatHost (MediaGranted 0 [7] (replicate 128 85)) w = Some w'"
    by blast
  have q: "isPaused (initialHooks\<lparr>isRecording := True, isPaused := True\<rparr>)"
    by simp
  from updateLevel_stops_itself [where c = "initialHooks\<lparr>isRecording := True, isPaused := True\<rparr>"
      and dataArray = "replicate 128 85" and w = "mount chatHost"] q
  have a: "updateLevel (initialHooks\<lparr>isRecording := True, isPaused := True\<rparr>) (replicate 128 85)
      (mount chatHost) = mount chatHost"
    by blast
  from updateLevel_stops_itself [where env = chatHost and es = "[ClickStart, ClickPause]"
      and w = w and c = initialHooks and dataArray = "replicate 128 85" and k = 0
      and stream = "[7]" and w' = w'] r c p g
  have b: "updateLevel initialHooks (replicate 128 85) w = w
     \<and> audioLevel (st w') = audioLevel (st w) \<and> frames w' = frames w"
    by blast
  from q a r c p g b show ?thesis
    by blast
qed

subsection \<open>C7: the audio level\<close>

lemma updateLevel_levelInRange: "levelInRange w \<Longrightarrow> levelInRange (updateLevel c dataArray w)"
  by (simp add: levelInRange_def updateLevel_eq)

lemma handle_levelInRange:
  assumes "handle env e w = Some w'" and "levelInRange w"
  shows "levelInRange w'"
proof (cases e)
  case (MediaGranted k stream dataArray)
  with assms show ?thesis
    using updateLevel_levelInRange [of "w\<lparr>acquiring := drop_nth k (acquiring w)\<rparr>"]
    by (auto simp add: levelInRange_def startAudioMonitoring_granted_st split: if_splits)
next
  case (AnimationFrame k dataArray)
  with assms show ?thesis
    using updateLevel_levelInRange [of "w\<lparr>frames := drop_nth k (frames w)\<rparr>"]
    by (auto simp add: levelInRange_def split: if_splits)
qed (use assms in \<open>auto simp add: levelInRange_def handler_eqs split: if_splits option.splits\<close>)

lemma step_levelInRange: "step env e w = Some w' \<Longrightarrow> levelInRange w \<Longrightarrow> levelInRange w'"
  by (auto simp add: step_def levelInRange_def dest: handle_levelInRange [unfolded levelInRange_def])

lemma run_levelInRange: "run env es (mount env) = Some w \<Longrightarrow> levelInRange w"
  by (rule run_invariant [where P = levelInRange])
     (auto simp add: step_levelInRange, simp add: levelInRange_def mount_def useEffect_body_def emit_def initialHooks_def)

text \<open>\<^verbatim>\<open>pauseRecording\<close> does not write the level. The level of a paused session is 0 because
  in a mounted component no tick stores a level (\<open>no_tick_in_a_run\<close>).\<close>

lemma pauseRecording_level: "audioLevel (st (pauseRecording w)) = audioLevel (st w)"
  by (simp add: pauseRecording_eq)

text \<open>
  Claim C7. A sampling tick stores \<^verbatim>\<open>min(100, (mean / 255) * 150)\<close>, where the mean is the sum
  of the bins divided by the number of bins; this value lies in [0, 100]. Every event keeps
  the level in [0, 100], and it is in [0, 100] in every world a mounted component reaches.
  \<^verbatim>\<open>stop()\<close> sets the level to 0, and in every world a mounted component reaches in which
  the session is paused or stopped the level is 0.
\<close>

theorem audioLevel_range_and_reset:
  "(isRecording c \<and> \<not> isPaused c \<longrightarrow>
      audioLevel (st (updateLevel c dataArray w))
        = min 100 ((real (sum_list (map unat dataArray)) / real bufferLength / 255) * 150))
   \<and> 0 \<le> min 100 ((real (sum_list (map unat dataArray)) / real bufferLength / 255) * 150)
   \<and> min 100 ((real (sum_list (map unat dataArray)) / real bufferLength / 255) * 150) \<le> 100
   \<and> (step env e w = Some w' \<longrightarrow> levelInRange w \<longrightarrow> levelInRange w')
   \<and> (run env es (mount env) = Some w \<longrightarrow> levelInRange w)
   \<and> audioLevel (st (stopRecording env c w)) = 0
   \<and> (run env es (mount env) = Some w \<longrightarrow> \<not> isRecording (st w) \<or> isPaused (st w) \<longrightarrow>
        audioLevel (st w) = 0)"
  by (auto simp add: updateLevel_eq bufferLength_def fftSize_def stopRecording_eq
      step_levelInRange run_levelInRange no_tick_in_a_run)

theorem audioLevel_range_and_reset_witness:
  "audioLevel (st (updateLevel (initialHooks\<lparr>isRecording := True\<rparr>) (replicate 128 85) (mount chatHost))) = 50
   \<and> levelInRange (mount chatHost)
   \<and> (\<exists>w'. step chatHost ClickStart (mount chatHost) = Some w' \<and> levelInRange w')
   \<and> (\<exists>w. run chatHost [ClickStart, MediaGranted 0 [7] (replicate 128 85), ClickPause]
              (mount chatHost) = Some w
        \<and> isRecording (st w) \<and> isPaused (st w) \<and> levelInRange w \<and> audioLevel (st w) = 0)
   \<and> (\<exists>w. run chatHost [ClickStart, MediaGranted 0 [7] (replicate 128 85), ClickStop]
              (mount chatHost) = Some w
        \<and> \<not> isRecording (st w) \<and> audioLevel (st w) = 0)"
proof -
  have "\<exists>w'. step chatHost ClickStart (mount chatHost) = Some w'"
    by (simp add: run_defs)
  then obtain w' where w': "step chatHost ClickStart (mount chatHost) = Some w'"
    by blast
  have "\<exists>w. run chatHost [ClickStart, MediaGranted 0 [7] (replicate 128 85), ClickPause]
              (mount chatHost) = Some w \<and> isRecording (st w) \<and> isPaused (st w)"
    by (simp add: run_defs)
  then obtain p where p: "run chatHost [ClickStart, MediaGranted 0 [7] (replicate 128 85), ClickPause]
              (mount chatHost) = Some p" "isRecording (st p)" "isPaused (st p)"
    by blast
  have "\<exists>w. run chatHost [ClickStart, MediaGranted 0 [7] (replicate 128 85), ClickStop]
              (mount chatHost) = Some w \<and> \<not> isRecording (st w)"
    by (simp add: run_defs)
  then obtain q where q: "run chatHost [ClickStart, MediaGranted 0 [7] (replicate 128 85), ClickStop]
              (mount chatHost) = Some q" "\<not> isRecording (st q)"
    by blast
  have r: "run chatHost [] (mount chatHost) = Some (mount chatHost)"
    by simp
  from audioLevel_range_and_reset [where c = "initialHooks\<lparr>isRecording := True\<rparr>"
      and dataArray = "replicate 128 85" and w = "mount chatHost" and env = chatHost
      and e = ClickStart and w' = w' and es = "[]"] w' r
  have a: "audioLevel (st (updateLevel (initialHooks\<lparr>isRecording := True\<rparr>) (replicate 128 85) (mount chatHost))) = 50
     \<and> levelInRange (mount chatHost) \<and> levelInRange w'"
    by (simp add: initialHooks_def sum_list_replicate bufferLength_def fftSize_def)
  from audioLevel_range_and_reset [where env = chatHost and w = p
      and es = "[ClickStart, MediaGranted 0 [7] (replicate 128 85), ClickPause]"] p
  have b: "levelInRange p \<and> audioLevel (st p) = 0"
    by simp
  from audioLevel_range_and_reset [where env = chatHost and w = q
      and es = "[ClickStart, MediaGranted 0 [7] (replicate 128 85), ClickStop]"] q
  have c: "audioLevel (st q) = 0"
    by simp
  from a b c w' p q show ?thesis
    by blast
qed

subsection \<open>C8: the elapsed seconds and the timer\<close>

lemma handle_recordingTime:
  assumes "handle env e w = Some w'"
  shows "recordingTime (st w') =
     (case e of
        ClickStart \<Rightarrow> (case recognitionRef w of None \<Rightarrow> recordingTime (st w) | Some r \<Rightarrow> 0)
      | TimerTick t \<Rightarrow> recordingTime (st w) + 1
      | _ \<Rightarrow> recordingTime (st w))"
  using assms
  by (cases e)
     (auto simp add: handler_eqs startAudioMonitoring_granted_st split: if_splits option.splits)

lemma step_recordingTime:
  assumes "step env e w = Some w'"
  shows "recordingTime (st w') =
     (case e of
        ClickStart \<Rightarrow> (case recognitionRef w of None \<Rightarrow> recordingTime (st w) | Some r \<Rightarrow> 0)
      | TimerTick t \<Rightarrow> recordingTime (st w) + 1
      | _ \<Rightarrow> recordingTime (st w))"
  using assms by (auto simp add: step_def handle_recordingTime)

lemma run_recordingTime: "run env es (mount env) = Some w \<Longrightarrow> 0 \<le> recordingTime (st w)"
proof (rule run_invariant [where P = "\<lambda>w. 0 \<le> recordingTime (st w)"])
  show "0 \<le> recordingTime (st (mount env))"
    by (simp add: mount_def useEffect_body_def emit_def initialHooks_def)
next
  fix e w w'
  assume "0 \<le> recordingTime (st w)" and "step env e w = Some w'"
  then show "0 \<le> recordingTime (st w')"
    using step_recordingTime [of env e w w']
    by (cases e) (auto split: option.splits)
qed simp

lemma releases_ClearInterval:
  "ClearInterval t \<in> set (releases w) \<longleftrightarrow> timerRef w = Some t"
  by (auto simp add: releases_def split: option.splits)

lemma callbacks_ClearInterval [simp]: "ClearInterval t \<notin> set (callbacks env text)"
  by (simp add: callbacks_def)

lemma handle_ClearInterval:
  assumes "handle env e w = Some w'"
    and "ClearInterval t \<in> set (trace w')" and "ClearInterval t \<notin> set (trace w)"
  shows "e = ClickStop \<or> (\<exists>r error. e = RecError r error \<and> error \<noteq> ''no-speech'')"
  using assms
  by (cases e)
     (auto simp add: handler_eqs startAudioMonitoring_granted_def startTimer_eq
       split: if_splits option.splits)

lemma step_ClearInterval:
  assumes "step env e w = Some w'"
    and "ClearInterval t \<in> set (trace w')" and "ClearInterval t \<notin> set (trace w)"
  shows "e = ClickStop \<or> (\<exists>r error. e = RecError r error \<and> error \<noteq> ''no-speech'')"
  using assms by (auto simp add: step_def dest: handle_ClearInterval)

lemma tick_while_paused:
  assumes "step env ClickPause w = Some w1"
    and "SetInterval t \<in> set (trace w)" and "ClearInterval t \<notin> set (trace w)"
  shows "\<exists>w2. step env (TimerTick t) w1 = Some w2 \<and> isPaused (st w2)
           \<and> recordingTime (st w2) = recordingTime (st w) + 1"
  using assms
  by (auto simp add: step_def pauseRecording_eq timer_tick_eq split: if_splits option.splits)

text \<open>
  Claim C8. \<^verbatim>\<open>start()\<close> sets the elapsed seconds to 0; no other event makes them smaller;
  they are never negative. \<^verbatim>\<open>pause()\<close> does not clear the interval and leaves \<^verbatim>\<open>timerRef\<close> as
  it is, so an interval that is running ticks on while the session is paused, adding one
  second. \<^verbatim>\<open>clearInterval\<close> is called only by \<^verbatim>\<open>stopRecording\<close>: by the Stop button, and by
  the handler of a recognition error other than \<^verbatim>\<open>no-speech\<close>, which calls it.
\<close>

theorem recordingTime_timer:
  "(recognitionRef w \<noteq> None \<longrightarrow> recordingTime (st (startRecording c w)) = 0)
   \<and> (step env e w = Some w' \<longrightarrow> e \<noteq> ClickStart \<longrightarrow> recordingTime (st w) \<le> recordingTime (st w'))
   \<and> (run env es (mount env) = Some w \<longrightarrow> 0 \<le> recordingTime (st w))
   \<and> (ClearInterval t \<in> set (trace (pauseRecording w)) \<longleftrightarrow> ClearInterval t \<in> set (trace w))
   \<and> timerRef (pauseRecording w) = timerRef w
   \<and> (step env ClickPause w = Some w1 \<longrightarrow>
        SetInterval t \<in> set (trace w) \<longrightarrow> ClearInterval t \<notin> set (trace w) \<longrightarrow>
        (\<exists>w2. step env (TimerTick t) w1 = Some w2 \<and> isPaused (st w2)
           \<and> recordingTime (st w2) = recordingTime (st w) + 1))
   \<and> (step env e w = Some w' \<longrightarrow>
        ClearInterval t \<in> set (trace w') \<longrightarrow> ClearInterval t \<notin> set (trace w) \<longrightarrow>
        e = ClickStop \<or> (\<exists>r error. e = RecError r error \<and> error \<noteq> ''no-speech''))"
proof (intro conjI impI)
  assume "recognitionRef w \<noteq> None"
  then show "recordingTime (st (startRecording c w)) = 0"
    by (auto simp add: startRecording_eq)
next
  assume "step env e w = Some w'" and "e \<noteq> ClickStart"
  then show "recordingTime (st w) \<le> recordingTime (st w')"
    using step_recordingTime [of env e w w'] by (cases e) simp_all
next
  assume "run env es (mount env) = Some w"
  then show "0 \<le> recordingTime (st w)"
    by (rule run_recordingTime)
next
  show "ClearInterval t \<in> set (trace (pauseRecording w)) \<longleftrightarrow> ClearInterval t \<in> set (trace w)"
    by (simp add: pauseRecording_eq split: option.split)
next
  show "timerRef (pauseRecording w) = timerRef w"
    by (simp add: pauseRecording_eq)
next
  assume "step env ClickPause w = Some w1"
    and "SetInterval t \<in> set (trace w)" and "ClearInterval t \<notin> set (trace w)"
  then show "\<exists>w2. step env (TimerTick t) w1 = Some w2 \<and> isPaused (st w2)
           \<and> recordingTime (st w2) = recordingTime (st w) + 1"
    by (rule tick_while_paused)
next
  assume "step env e w = Some w'"
    and "ClearInterval t \<in> set (trace w')" and "ClearInterval t \<notin> set (trace w)"
  then show "e = ClickStop \<or> (\<exists>r error. e = RecError r error \<and> error \<noteq> ''no-speech'')"
    by (rule step_ClearInterval)
qed

theorem recordingTime_timer_witness:
  "recognitionRef (mount chatHost) \<noteq> None
   \<and> recordingTime (st (startRecording initialHooks (mount chatHost))) = 0
   \<and> (\<exists>w w1 w2 w3.
        run chatHost [ClickStart, MediaGranted 0 [7] []] (mount chatHost) = Some w
        \<and> 0 \<le> recordingTime (st w)
        \<and> SetInterval 2 \<in> set (trace w) \<and> ClearInterval 2 \<notin> set (trace w)
        \<and> step chatHost ClickPause w = Some w1
        \<and> step chatHost (TimerTick 2) w1 = Some w2 \<and> isPaused (st w2)
        \<and> recordingTime (st w2) = recordingTime (st w) + 1
        \<and> recordingTime (st w1) \<le> recordingTime (st w2)
        \<and> step chatHost ClickStop w = Some w3
        \<and> ClearInterval 2 \<in> set (trace w3))"
proof -
  have "\<exists>w. run chatHost [ClickStart, MediaGranted 0 [7] []] (mount chatHost) = Some w
     \<and> SetInterval 2 \<in> set (trace w) \<and> ClearInterval 2 \<notin> set (trace w)
     \<and> (\<exists>w1. step chatHost ClickPause w = Some w1)
     \<and> (\<exists>w3. step chatHost ClickStop w = Some w3 \<and> ClearInterval 2 \<in> set (trace w3))"
    by (simp add: run_defs)
  then obtain w w1 w3 where
    r: "run chatHost [ClickStart, MediaGranted 0 [7] []] (mount chatHost) = Some w"
    and t: "SetInterval 2 \<in> set (trace w)" "ClearInterval 2 \<notin> set (trace w)"
    and p: "step chatHost ClickPause w = Some w1"
    and s: "step chatHost ClickStop w = Some w3" "ClearInterval 2 \<in> set (trace w3)"
    by blast
  have m: "recognitionRef (mount chatHost) \<noteq> None"
    by (simp add: run_defs)
  note inst = recordingTime_timer [where env = chatHost and t = 2]
  from inst [where w = "mount chatHost" and c = initialHooks] m
  have a: "recordingTime (st (startRecording initialHooks (mount chatHost))) = 0"
    by blast
  from inst [where w = w and es = "[ClickStart, MediaGranted 0 [7] []]" and ?w1.0 = w1] r p t
  obtain w2 where n: "0 \<le> recordingTime (st w)"
    and k: "step chatHost (TimerTick 2) w1 = Some w2" "isPaused (st w2)"
      "recordingTime (st w2) = recordingTime (st w) + 1"
    by blast
  from inst [where w = w1 and e = "TimerTick 2" and w' = w2] k(1)
  have mono: "recordingTime (st w1) \<le> recordingTime (st w2)"
    by simp
  from inst [where w = w and e = ClickStop and w' = w3] s t
  have "ClickStop = ClickStop \<or> (\<exists>r error. ClickStop = RecError r error \<and> error \<noteq> ''no-speech'')"
    by blast
  with m a r n t p k mono s show ?thesis
    by blast
qed

subsection \<open>C9: clear\<close>

lemma click_clear:
  assumes "run env es (mount env) = Some w" and "step env ClickClear w = Some w'"
  shows "w' = w\<lparr>st := (st w)\<lparr>transcript := [], interimTranscript := []\<rparr>,
               current := (st w)\<lparr>transcript := [], interimTranscript := []\<rparr>\<rparr>"
proof -
  from assms(1) have "current w = st w"
    by (rule run_current)
  with assms(2) show ?thesis
    by (auto simp add: step_def clearTranscript_eq render_def Let_def split: if_splits)
qed

text \<open>
  Claim C9. \<^verbatim>\<open>clear()\<close>, in any state, sets the finalized and the interim transcript to the
  empty string and changes nothing else: not \<^verbatim>\<open>isRecording\<close> or \<^verbatim>\<open>isPaused\<close>, not the
  elapsed seconds or the audio level; it makes no call to the recognition object, the
  timer or the audio objects and leaves the pending sampling ticks as they are. The same
  holds for a click on Clear in a mounted component together with the render that follows
  it, which does not run the effect again.
\<close>

theorem clearTranscript_frame:
  "clearTranscript w = w\<lparr>st := (st w)\<lparr>transcript := [], interimTranscript := []\<rparr>\<rparr>
   \<and> transcript (st (clearTranscript w)) = []
   \<and> interimTranscript (st (clearTranscript w)) = []
   \<and> isRecording (st (clearTranscript w)) = isRecording (st w)
   \<and> isPaused (st (clearTranscript w)) = isPaused (st w)
   \<and> recordingTime (st (clearTranscript w)) = recordingTime (st w)
   \<and> audioLevel (st (clearTranscript w)) = audioLevel (st w)
   \<and> trace (clearTranscript w) = trace w
   \<and> frames (clearTranscript w) = frames w
   \<and> acquiring (clearTranscript w) = acquiring w
   \<and> (run env es (mount env) = Some w \<longrightarrow> step env ClickClear w = Some w' \<longrightarrow>
        transcript (st w') = [] \<and> interimTranscript (st w') = []
        \<and> isRecording (st w') = isRecording (st w) \<and> isPaused (st w') = isPaused (st w)
        \<and> recordingTime (st w') = recordingTime (st w) \<and> audioLevel (st w') = audioLevel (st w)
        \<and> trace w' = trace w \<and> recognitionRef w' = recognitionRef w
        \<and> timerRef w' = timerRef w \<and> streamRef w' = streamRef w
        \<and> audioContextRef w' = audioContextRef w
        \<and> frames w' = frames w \<and> acquiring w' = acquiring w)"
proof (intro conjI impI)
  assume r: "run env es (mount env) = Some w" and s: "step env ClickClear w = Some w'"
  note eq = click_clear [OF r s]
  show "transcript (st w') = []" "interimTranscript (st w') = []"
    "isRecording (st w') = isRecording (st w)" "isPaused (st w') = isPaused (st w)"
    "recordingTime (st w') = recordingTime (st w)" "audioLevel (st w') = audioLevel (st w)"
    "trace w' = trace w" "recognitionRef w' = recognitionRef w"
    "timerRef w' = timerRef w" "streamRef w' = streamRef w"
    "audioContextRef w' = audioContextRef w"
    "frames w' = frames w" "acquiring w' = acquiring w"
    by (simp_all add: eq)
qed (simp_all add: clearTranscript_eq)

theorem clearTranscript_frame_witness:
  "\<exists>w w'. run chatHost [ClickStart, RecResult 0 (finalBatch ''hello''),
        RecResult 0 (interimBatch ''wor'')] (mount chatHost) = Some w
     \<and> transcript (st w) = ''hello '' \<and> interimTranscript (st w) = ''wor''
     \<and> isRecording (st w) \<and> \<not> isPaused (st w)
     \<and> step chatHost ClickClear w = Some w'
     \<and> transcript (st w') = [] \<and> interimTranscript (st w') = []
     \<and> isRecording (st w') \<and> \<not> isPaused (st w')
     \<and> trace w' = trace w"
proof -
  have "\<exists>w. run chatHost [ClickStart, RecResult 0 (finalBatch ''hello''),
        RecResult 0 (interimBatch ''wor'')] (mount chatHost) = Some w
     \<and> transcript (st w) = ''hello '' \<and> interimTranscript (st w) = ''wor''
     \<and> isRecording (st w) \<and> \<not> isPaused (st w)
     \<and> (\<exists>w'. step chatHost ClickClear w = Some w')"
    by (simp add: run_defs)
  then obtain w w' where
    r: "run chatHost [ClickStart, RecResult 0 (finalBatch ''hello''),
        RecResult 0 (interimBatch ''wor'')] (mount chatHost) = Some w"
    and t: "transcript (st w) = ''hello ''" "interimTranscript (st w) = ''wor''"
      "isRecording (st w)" "\<not> isPaused (st w)"
    and s: "step chatHost ClickClear w = Some w'"
    by blast
  from clearTranscript_frame [where env = chatHost and w = w and w' = w'
      and es = "[ClickStart, RecResult 0 (finalBatch ''hello''), RecResult 0 (interimBatch ''wor'')]"]
    r s t
  have "transcript (st w') = [] \<and> interimTranscript (st w') = []
     \<and> isRecording (st w') \<and> \<not> isPaused (st w') \<and> trace w' = trace w"
    by simp
  with r s t show ?thesis
    by blast
qed

subsection \<open>C10: the transcripts after stop\<close>

lemma handle_transcript_emptied:
  assumes "handle env e w = Some w'" and "transcript (st w) \<noteq> []" and "transcript (st w') = []"
  shows "e = ClickClear \<or> e = ClickStart"
  using assms
  by (cases e)
     (auto simp add: handler_eqs startAudioMonitoring_granted_st split: if_splits option.splits)

lemma handle_interim_emptied:
  assumes "handle env e w = Some w'"
    and "interimTranscript (st w) \<noteq> []" and "interimTranscript (st w') = []"
  shows "e = ClickClear \<or> e = ClickStart \<or> (\<exists>r ev. e = RecResult r ev)"
  using assms
  by (cases e)
     (auto simp add: handler_eqs startAudioMonitoring_granted_st split: if_splits option.splits)

text \<open>
  Claim C10 says that after \<^verbatim>\<open>stop()\<close> both transcripts become empty again only through
  \<^verbatim>\<open>clear()\<close> or the next \<^verbatim>\<open>start()\<close>. \<^verbatim>\<open>stop()\<close> removes no handler from the recognition
  object, and a result that arrives after it is handled as before: a final batch
  empties the interim transcript. Here the session is stopped with the interim text
  \<^verbatim>\<open>"wor"\<close>; the final batch that follows leaves it empty.
\<close>

theorem interim_emptied_by_result_counterexample:
  "map_option (\<lambda>w. (isRecording (st w), transcript (st w), interimTranscript (st w)))
     (run chatHost [ClickStart, RecResult 0 (interimBatch ''wor''), ClickStop] (mount chatHost))
     = Some (False, [], ''wor'')
   \<and> map_option (\<lambda>w. (isRecording (st w), transcript (st w), interimTranscript (st w)))
     (run chatHost [ClickStart, RecResult 0 (interimBatch ''wor''), ClickStop,
        RecResult 0 (finalBatch ''world'')] (mount chatHost))
     = Some (False, ''world '', [])"
  by (simp add: run_defs)

text \<open>
  Claim C10, amended. \<^verbatim>\<open>stop()\<close> leaves the finalized and the interim transcript as they
  are. \<^verbatim>\<open>clear()\<close> and a \<^verbatim>\<open>start()\<close> that finds a recognition object empty both. A finalized
  transcript that is not empty becomes empty only through \<^verbatim>\<open>clear()\<close> or \<^verbatim>\<open>start()\<close>; an
  interim transcript that is not empty becomes empty only through \<^verbatim>\<open>clear()\<close>, \<^verbatim>\<open>start()\<close>
  or a recognition result batch.
\<close>

theorem stop_keeps_transcripts:
  "transcript (st (stopRecording env c w)) = transcript (st w)
   \<and> interimTranscript (st (stopRecording env c w)) = interimTranscript (st w)
   \<and> transcript (st (clearTranscript w)) = [] \<and> interimTranscript (st (clearTranscript w)) = []
   \<and> (recognitionRef w \<noteq> None \<longrightarrow>
        transcript (st (startRecording c w)) = [] \<and> interimTranscript (st (startRecording c w)) = [])
   \<and> (step env e w = Some w' \<longrightarrow> transcript (st w) \<noteq> [] \<longrightarrow> transcript (st w') = [] \<longrightarrow>
        e = ClickClear \<or> e = ClickStart)
   \<and> (step env e w = Some w' \<longrightarrow>
        interimTranscript (st w) \<noteq> [] \<longrightarrow> interimTranscript (st w') = [] \<longrightarrow>
        e = ClickClear \<or> e = ClickStart \<or> (\<exists>r ev. e = RecResult r ev))"
proof (intro conjI impI)
  assume "step env e w = Some w'" and "transcript (st w) \<noteq> []" and "transcript (st w') = []"
  then show "e = ClickClear \<or> e = ClickStart"
    by (auto simp add: step_def dest: handle_transcript_emptied)
next
  assume "step env e w = Some w'"
    and "interimTranscript (st w) \<noteq> []" and "interimTranscript (st w') = []"
  then show "e = ClickClear \<or> e = ClickStart \<or> (\<exists>r ev. e = RecResult r ev)"
    by (auto simp add: step_def dest: handle_interim_emptied)
qed (auto simp add: stopRecording_eq clearTranscript_eq startRecording_eq)

theorem stop_keeps_transcripts_witness:
  "recognitionRef (mount chatHost) \<noteq> None
   \<and> transcript (st (startRecording initialHooks (mount chatHost))) = []
   \<and> (\<exists>w w1 w2.
        run chatHost [ClickStart, RecResult 0 (finalBatch ''hello''),
          RecResult 0 (interimBatch ''wor'')] (mount chatHost) = Some w
        \<and> transcript (st w) = ''hello '' \<and> interimTranscript (st w) = ''wor''
        \<and> step chatHost ClickClear w = Some w1
        \<and> transcript (st w1) = [] \<and> interimTranscript (st w1) = []
        \<and> step chatHost ClickStop w = Some w2
        \<and> transcript (st w2) = ''hello '' \<and> interimTranscript (st w2) = ''wor'')"
proof -
  have "\<exists>w. run chatHost [ClickStart, RecResult 0 (finalBatch ''hello''),
          RecResult 0 (interimBatch ''wor'')] (mount chatHost) = Some w
     \<and> transcript (st w) = ''hello '' \<and> interimTranscript (st w) = ''wor''
     \<and> (\<exists>w1. step chatHost ClickClear w = Some w1
           \<and> transcript (st w1) = [] \<and> interimTranscript (st w1) = [])
     \<and> (\<exists>w2. step chatHost ClickStop w = Some w2
           \<and> transcript (st w2) = ''hello '' \<and> interimTranscript (st w2) = ''wor'')"
    by (simp add: run_defs)
  then obtain w w1 w2 where
    r: "run chatHost [ClickStart, RecResult 0 (finalBatch ''hello''),
          RecResult 0 (interimBatch ''wor'')] (mount chatHost) = Some w"
    and t: "transcript (st w) = ''hello ''" "interimTranscript (st w) = ''wor''"
    and c: "step chatHost ClickClear w = Some w1"
      "transcript (st w1) = []" "interimTranscript (st w1) = []"
    and s: "step chatHost ClickStop w = Some w2"
      "transcript (st w2) = ''hello ''" "interimTranscript (st w2) = ''wor''"
    by blast
  have m: "recognitionRef (mount chatHost) \<noteq> None"
    by (simp add: run_defs)
  from stop_keeps_transcripts [where w = "mount chatHost" and c = initialHooks] m
  have a: "transcript (st (startRecording initialHooks (mount chatHost))) = []"
    by blast
  from stop_keeps_transcripts [where env = chatHost and w = w and e = ClickClear and w' = w1] c t
  have "ClickClear = ClickClear \<or> ClickClear = ClickStart"
    by simp
  with m a r t c s show ?thesis
    by blast
qed

end
